theory Spec2Isabelle
  imports Complex_Main
begin

section \<open>Data model of the book subscription backend\<close>

text \<open>
  The relational schema of \<^verbatim>\<open>backend/main.py\<close>. Every table is the list of its rows in
  row-id order (the order in which the rows were inserted: nothing is ever deleted), a
  \<^verbatim>\<open>DateTime\<close> is a number of microseconds since the epoch, and a \<^verbatim>\<open>Float\<close>
  column, which the code stores and returns but never computes with, is a real number.
\<close>

type_synonym datetime = int

record user =
  u_id :: int
  u_email :: string
  u_hashed_password :: string
  u_is_active :: bool
  u_subscription_plan :: string
  u_created_at :: datetime

record book =
  b_id :: int
  b_title :: string
  b_author :: string
  b_genre :: string
  b_description :: string
  b_price :: real
  b_is_premium :: bool

record subscription_plan =
  p_id :: int
  p_name :: string
  p_price :: real
  p_description :: string
  p_max_books :: int

record user_book =
  ub_id :: int
  ub_user_id :: int
  ub_book_id :: int
  ub_is_read :: bool
  ub_added_at :: datetime

record database =
  users :: "user list"
  books :: "book list"
  subscription_plans :: "subscription_plan list"
  user_books :: "user_book list"

text \<open>\<^verbatim>\<open>Base.metadata.create_all\<close>: the four tables, empty.\<close>

definition create_all :: database where
  "create_all = \<lparr>users = [], books = [], subscription_plans = [], user_books = []\<rparr>"

text \<open>An integer primary key of a new row: one more than the largest in the table.\<close>

definition next_rowid :: "int list \<Rightarrow> int" where
  "next_rowid ids = (case ids of [] \<Rightarrow> 1 | i # rest \<Rightarrow> fold max rest i + 1)"

text \<open>
  An integer that a request carries becomes the parameter of a query, and the store binds
  signed 64-bit integers only: a query with an integer outside that range raises before
  it runs, and the request ends in a 500.
\<close>

definition in_int64 :: "int \<Rightarrow> bool" where
  "in_int64 i \<longleftrightarrow> - (2 ^ 63) \<le> i \<and> i < 2 ^ 63"

subsection \<open>Request and response bodies\<close>

record user_create =
  uc_email :: string
  uc_password :: string

record user_login =
  ul_email :: string
  ul_password :: string

record user_response =
  ur_id :: int
  ur_email :: string
  ur_subscription_plan :: string
  ur_is_active :: bool

record book_response =
  br_id :: int
  br_title :: string
  br_author :: string
  br_genre :: string
  br_description :: string
  br_price :: real
  br_is_premium :: bool

text \<open>\<^verbatim>\<open>from_attributes = True\<close>: a response copies the fields it declares from the row.\<close>

definition UserResponse :: "user \<Rightarrow> user_response" where
  "UserResponse u =
     \<lparr>ur_id = u_id u, ur_email = u_email u,
      ur_subscription_plan = u_subscription_plan u, ur_is_active = u_is_active u\<rparr>"

definition BookResponse :: "book \<Rightarrow> book_response" where
  "BookResponse b =
     \<lparr>br_id = b_id b, br_title = b_title b, br_author = b_author b, br_genre = b_genre b,
      br_description = b_description b, br_price = b_price b, br_is_premium = b_is_premium b\<rparr>"

text \<open>An \<^verbatim>\<open>HTTPException\<close> raised by an endpoint, with its status code and detail.\<close>

datatype http_error = HTTPException (status_code: nat) (detail: string)

text \<open>The error taxonomy of the specification, as the responses the code gives.\<close>

definition DuplicateIdentity :: http_error where
  "DuplicateIdentity = HTTPException 400 ''Email already registered''"

definition InvalidCredentials :: http_error where
  "InvalidCredentials = HTTPException 401 ''Invalid credentials''"

definition InvalidToken :: http_error where
  "InvalidToken = HTTPException 401 ''Invalid token''"

definition UserNotFound :: http_error where
  "UserNotFound = HTTPException 401 ''User not found''"

definition BookNotFound :: http_error where
  "BookNotFound = HTTPException 404 ''Book not found''"

definition PlanNotFound :: http_error where
  "PlanNotFound = HTTPException 404 ''Subscription plan not found''"

definition AlreadyOwned :: http_error where
  "AlreadyOwned = HTTPException 400 ''Book already in library''"

definition EntitlementDenied :: http_error where
  "EntitlementDenied = HTTPException 403 ''Premium subscription required''"

definition NotOwned :: http_error where
  "NotOwned = HTTPException 404 ''Book not in your library''"

text \<open>What the framework answers when a response does not fit its \<^verbatim>\<open>response_model\<close>,
  or a commit violates a constraint of the schema.\<close>

definition InternalServerError :: http_error where
  "InternalServerError = HTTPException 500 ''Internal Server Error''"

section \<open>Session issuer\<close>

definition SECRET_KEY :: string where
  "SECRET_KEY = ''your-secret-key-change-this-in-production''"

definition ACCESS_TOKEN_EXPIRE_MINUTES :: int where
  "ACCESS_TOKEN_EXPIRE_MINUTES = 30"

definition timedelta_minutes :: "int \<Rightarrow> int" where
  "timedelta_minutes m = m * 60 * 1000000"

text \<open>
  The payload handed to the token library: the string claims of the \<^verbatim>\<open>data\<close> dict and
  the \<^verbatim>\<open>exp\<close> entry, a datetime.
\<close>

record payload =
  claims :: "string \<rightharpoonup> string"
  exp :: "datetime option"

text \<open>
  A bearer token as the server sees it: a string that does not parse, or a payload with a
  signature made with some key. The signature is symbolic (the key that made it), and
  the serialised \<^verbatim>\<open>exp\<close> claim is a whole number of seconds.
\<close>

datatype token =
  Malformed string
| Signed (tok_key: string) (tok_claims: "string \<rightharpoonup> string") (tok_exp: "int option")

datatype jwt_error = DecodeError | InvalidSignatureError | ExpiredSignatureError

text \<open>
  Modelled from the spec: the token library (\<^verbatim>\<open>jwt.encode\<close>, \<^verbatim>\<open>jwt.decode\<close> with
  HS256), which the repository imports and does not contain. Section 4.2: a token is
  opaque and signed and encodes the subject and the expiry; resolving it fails when the
  signature is invalid, the token is malformed or the expiry has passed, and gives the
  payload otherwise. The expiry is stored in whole seconds and has passed once the clock
  reaches it.
\<close>

definition jwt_encode :: "payload \<Rightarrow> string \<Rightarrow> token" where
  "jwt_encode p key = Signed key (claims p) (map_option (\<lambda>t. t div 1000000) (exp p))"

text \<open>
  Modelled from the spec: \<^verbatim>\<open>jwt.decode\<close> of the same library, which fails on a token
  that is malformed, signed with another key or past its expiry, and returns the claims
  otherwise.
\<close>

definition jwt_decode :: "token \<Rightarrow> string \<Rightarrow> datetime \<Rightarrow> jwt_error + (string \<rightharpoonup> string)" where
  "jwt_decode tok key now =
     (case tok of
        Malformed _ \<Rightarrow> Inl DecodeError
      | Signed k c e \<Rightarrow>
          if k \<noteq> key then Inl InvalidSignatureError
          else (case e of
                  None \<Rightarrow> Inr c
                | Some secs \<Rightarrow>
                    if secs * 1000000 \<le> now then Inl ExpiredSignatureError else Inr c))"

definition create_access_token :: "(string \<rightharpoonup> string) \<Rightarrow> datetime \<Rightarrow> token" where
  "create_access_token data utcnow =
     (let to_encode = \<lparr>claims = data, exp = None\<rparr>;
          expire = utcnow + timedelta_minutes ACCESS_TOKEN_EXPIRE_MINUTES;
          to_encode = to_encode\<lparr>exp := Some expire\<rparr>
      in jwt_encode to_encode SECRET_KEY)"

definition verify_token :: "token \<Rightarrow> datetime \<Rightarrow> http_error + string" where
  "verify_token credentials now =
     (case jwt_decode credentials SECRET_KEY now of
        Inl _ \<Rightarrow> Inl (HTTPException 401 ''Invalid token'')
      | Inr payload \<Rightarrow>
          (case payload ''sub'' of
             None \<Rightarrow> Inl (HTTPException 401 ''Invalid token'')
           | Some email \<Rightarrow> Inr email))"

definition get_current_user :: "string \<Rightarrow> database \<Rightarrow> http_error + user" where
  "get_current_user email db =
     (case find (\<lambda>u. u_email u = email) (users db) of
        None \<Rightarrow> Inl (HTTPException 401 ''User not found'')
      | Some user \<Rightarrow> Inr user)"

section \<open>Credential store\<close>

text \<open>
  The password hash is the library's (\<^verbatim>\<open>bcrypt.hashpw\<close>, \<^verbatim>\<open>bcrypt.checkpw\<close>): the
  functions are parameters, and so is the salt that \<^verbatim>\<open>bcrypt.gensalt\<close> draws.
\<close>

definition hash_password :: "(string \<Rightarrow> string \<Rightarrow> string) \<Rightarrow> string \<Rightarrow> string \<Rightarrow> string" where
  "hash_password hashpw gensalt password = hashpw password gensalt"

definition verify_password :: "(string \<Rightarrow> string \<Rightarrow> bool) \<Rightarrow> string \<Rightarrow> string \<Rightarrow> bool" where
  "verify_password checkpw password hashed_password = checkpw password hashed_password"

text \<open>
  Every endpoint takes the database and returns the database after the request together
  with the response: an \<^verbatim>\<open>HTTPException\<close> (\<open>Inl\<close>) or the body (\<open>Inr\<close>).
\<close>

definition register ::
  "(string \<Rightarrow> string \<Rightarrow> string) \<Rightarrow> string \<Rightarrow> datetime \<Rightarrow> user_create \<Rightarrow> database
     \<Rightarrow> database \<times> (http_error + user_response)" where
  "register hashpw gensalt utcnow user db =
     (case find (\<lambda>u. u_email u = uc_email user) (users db) of
        Some _ \<Rightarrow> (db, Inl (HTTPException 400 ''Email already registered''))
      | None \<Rightarrow>
          (let hashed_password = hash_password hashpw gensalt (uc_password user);
               db_user = \<lparr>u_id = next_rowid (map u_id (users db)),
                          u_email = uc_email user,
                          u_hashed_password = hashed_password,
                          u_is_active = True,
                          u_subscription_plan = ''free'',
                          u_created_at = utcnow\<rparr>
           in (db\<lparr>users := users db @ [db_user]\<rparr>, Inr (UserResponse db_user))))"

record token_response =
  access_token :: token
  token_type :: string

definition login ::
  "(string \<Rightarrow> string \<Rightarrow> bool) \<Rightarrow> datetime \<Rightarrow> user_login \<Rightarrow> database
     \<Rightarrow> database \<times> (http_error + token_response)" where
  "login checkpw utcnow user db =
     (case find (\<lambda>u. u_email u = ul_email user) (users db) of
        None \<Rightarrow> (db, Inl (HTTPException 401 ''Invalid credentials''))
      | Some db_user \<Rightarrow>
          if \<not> verify_password checkpw (ul_password user) (u_hashed_password db_user)
          then (db, Inl (HTTPException 401 ''Invalid credentials''))
          else (db, Inr \<lparr>access_token =
                           create_access_token [''sub'' \<mapsto> ul_email user] utcnow,
                         token_type = ''bearer''\<rparr>))"

section \<open>Entitlement engine\<close>

definition add_book_to_library ::
  "datetime \<Rightarrow> int \<Rightarrow> user \<Rightarrow> database \<Rightarrow> database \<times> (http_error + string)" where
  "add_book_to_library utcnow book_id current_user db =
     (case find (\<lambda>b. b_id b = book_id) (books db) of
        None \<Rightarrow> (db, Inl (HTTPException 404 ''Book not found''))
      | Some book \<Rightarrow>
          (case find (\<lambda>ub. ub_user_id ub = u_id current_user \<and> ub_book_id ub = book_id)
                  (user_books db) of
             Some _ \<Rightarrow> (db, Inl (HTTPException 400 ''Book already in library''))
           | None \<Rightarrow>
               if b_is_premium book \<and> u_subscription_plan current_user = ''free''
               then (db, Inl (HTTPException 403 ''Premium subscription required''))
               else
                 (let user_book = \<lparr>ub_id = next_rowid (map ub_id (user_books db)),
                                   ub_user_id = u_id current_user,
                                   ub_book_id = book_id,
                                   ub_is_read = False,
                                   ub_added_at = utcnow\<rparr>
                  in (db\<lparr>user_books := user_books db @ [user_book]\<rparr>,
                      Inr ''Book added to library''))))"

text \<open>
  \<^verbatim>\<open>user_book.book\<close> follows the foreign key and is \<^verbatim>\<open>None\<close> when no book has
  that id; the response model then rejects the list.
\<close>

fun book_responses :: "book option list \<Rightarrow> http_error + book_response list" where
  "book_responses [] = Inr []"
| "book_responses (None # bs) = Inl (HTTPException 500 ''Internal Server Error'')"
| "book_responses (Some b # bs) =
     (case book_responses bs of Inl e \<Rightarrow> Inl e | Inr rs \<Rightarrow> Inr (BookResponse b # rs))"

definition get_my_books :: "user \<Rightarrow> database \<Rightarrow> database \<times> (http_error + book_response list)" where
  "get_my_books current_user db =
     (let user_books = filter (\<lambda>ub. ub_user_id ub = u_id current_user) (user_books db);
          books = map (\<lambda>user_book. find (\<lambda>b. b_id b = ub_book_id user_book) (books db))
                    user_books
      in (db, book_responses books))"

text \<open>
  The query for the ownership row is the first statement of the endpoint and carries the
  id of the request: with an id that the store cannot bind it raises, nothing is written
  and the answer is a 500.
\<close>

definition mark_book_as_read ::
  "int \<Rightarrow> user \<Rightarrow> database \<Rightarrow> database \<times> (http_error + string)" where
  "mark_book_as_read book_id current_user db =
     (if \<not> in_int64 book_id then (db, Inl (HTTPException 500 ''Internal Server Error''))
      else
        (case find (\<lambda>ub. ub_user_id ub = u_id current_user \<and> ub_book_id ub = book_id)
                (user_books db) of
           None \<Rightarrow> (db, Inl (HTTPException 404 ''Book not in your library''))
         | Some user_book \<Rightarrow>
             (db\<lparr>user_books :=
                    map (\<lambda>ub. if ub_id ub = ub_id user_book then ub\<lparr>ub_is_read := True\<rparr>
                              else ub)
                      (user_books db)\<rparr>,
              Inr ''Book marked as read'')))"

section \<open>Plan registry\<close>

definition subscribe_to_plan ::
  "int \<Rightarrow> user \<Rightarrow> database \<Rightarrow> database \<times> (http_error + string)" where
  "subscribe_to_plan plan_id current_user db =
     (case find (\<lambda>p. p_id p = plan_id) (subscription_plans db) of
        None \<Rightarrow> (db, Inl (HTTPException 404 ''Subscription plan not found''))
      | Some plan \<Rightarrow>
          (db\<lparr>users :=
                 map (\<lambda>u. if u_id u = u_id current_user
                           then u\<lparr>u_subscription_plan := p_name plan\<rparr> else u)
                   (users db)\<rparr>,
           Inr (''Successfully subscribed to '' @ p_name plan @ '' plan'')))"

section \<open>Seed data\<close>

definition seed_plans :: "(int \<Rightarrow> subscription_plan) list" where
  "seed_plans =
     [\<lambda>i. \<lparr>p_id = i, p_name = ''free'', p_price = 0.0,
            p_description = ''Access to basic books'', p_max_books = 5\<rparr>,
      \<lambda>i. \<lparr>p_id = i, p_name = ''premium'', p_price = 9.99,
            p_description = ''Access to all books'', p_max_books = 100\<rparr>,
      \<lambda>i. \<lparr>p_id = i, p_name = ''unlimited'', p_price = 19.99,
            p_description = ''Unlimited access'', p_max_books = 999\<rparr>]"

definition seed_books :: "(int \<Rightarrow> book) list" where
  "seed_books =
     [\<lambda>i. \<lparr>b_id = i, b_title = ''The Python Guide'', b_author = ''John Doe'',
            b_genre = ''Programming'', b_description = ''Learn Python programming'',
            b_price = 29.99, b_is_premium = False\<rparr>,
      \<lambda>i. \<lparr>b_id = i, b_title = ''Advanced FastAPI'', b_author = ''Jane Smith'',
            b_genre = ''Programming'', b_description = ''Master FastAPI development'',
            b_price = 39.99, b_is_premium = True\<rparr>,
      \<lambda>i. \<lparr>b_id = i, b_title = ''Data Science Handbook'', b_author = ''Bob Johnson'',
            b_genre = ''Data Science'', b_description = ''Complete guide to data science'',
            b_price = 49.99, b_is_premium = True\<rparr>,
      \<lambda>i. \<lparr>b_id = i, b_title = ''Web Development Basics'', b_author = ''Alice Brown'',
            b_genre = ''Web Development'',
            b_description = ''HTML, CSS, JavaScript fundamentals'',
            b_price = 19.99, b_is_premium = False\<rparr>,
      \<lambda>i. \<lparr>b_id = i, b_title = ''Machine Learning Primer'', b_author = ''Charlie Wilson'',
            b_genre = ''AI/ML'', b_description = ''Introduction to machine learning'',
            b_price = 34.99, b_is_premium = True\<rparr>]"

text \<open>\<^verbatim>\<open>db.add\<close> in a loop: each new row takes the next id of its table.\<close>

fun add_plans :: "(int \<Rightarrow> subscription_plan) list \<Rightarrow> subscription_plan list \<Rightarrow> subscription_plan list" where
  "add_plans [] tbl = tbl"
| "add_plans (plan # rest) tbl = add_plans rest (tbl @ [plan (next_rowid (map p_id tbl))])"

fun add_books :: "(int \<Rightarrow> book) list \<Rightarrow> book list \<Rightarrow> book list" where
  "add_books [] tbl = tbl"
| "add_books (book # rest) tbl = add_books rest (tbl @ [book (next_rowid (map b_id tbl))])"

text \<open>
  The plan name is declared unique: a commit that would store a second plan of one name
  fails and stores nothing.
\<close>

definition seed_data :: "database \<Rightarrow> database \<times> (http_error + string)" where
  "seed_data db =
     (case books db of
        _ # _ \<Rightarrow> (db, Inr ''Data already exists'')
      | [] \<Rightarrow>
          if \<exists>p \<in> set (subscription_plans db).
               p_name p \<in> set (map (\<lambda>plan. p_name (plan 0)) seed_plans)
          then (db, Inl (HTTPException 500 ''Internal Server Error''))
          else (db\<lparr>subscription_plans := add_plans seed_plans (subscription_plans db),
                   books := add_books seed_books (books db)\<rparr>,
                Inr ''Sample data created successfully''))"

section \<open>Requests\<close>

text \<open>
  A request to an endpoint that declares \<^verbatim>\<open>Depends(get_current_user)\<close> carries the
  subject of its bearer token: the user is looked up before the endpoint runs, and the
  request ends there when no user has that email.
\<close>

definition with_current_user ::
  "string \<Rightarrow> (user \<Rightarrow> database \<Rightarrow> database \<times> (http_error + 'a)) \<Rightarrow> database
     \<Rightarrow> database \<times> (http_error + 'a)" where
  "with_current_user email endpoint db =
     (case get_current_user email db of
        Inl e \<Rightarrow> (db, Inl e)
      | Inr current_user \<Rightarrow> endpoint current_user db)"

datatype request =
  SeedData
| Register user_create string datetime
| Login user_login datetime
| AddBookToLibrary string int datetime
| GetMyBooks string
| MarkBookAsRead string int
| SubscribeToPlan string int

datatype response =
  Message string
| UserBody user_response
| TokenBody token_response
| BooksBody "book_response list"

definition respond ::
  "('a \<Rightarrow> response) \<Rightarrow> database \<times> (http_error + 'a) \<Rightarrow> database \<times> (http_error + response)" where
  "respond body r = (fst r, map_sum id body (snd r))"

fun handle ::
  "(string \<Rightarrow> string \<Rightarrow> string) \<Rightarrow> (string \<Rightarrow> string \<Rightarrow> bool) \<Rightarrow> request \<Rightarrow> database
     \<Rightarrow> database \<times> (http_error + response)" where
  "handle hashpw checkpw SeedData db = respond Message (seed_data db)"
| "handle hashpw checkpw (Register user gensalt utcnow) db =
     respond UserBody (register hashpw gensalt utcnow user db)"
| "handle hashpw checkpw (Login user utcnow) db =
     respond TokenBody (login checkpw utcnow user db)"
| "handle hashpw checkpw (AddBookToLibrary email book_id utcnow) db =
     respond Message (with_current_user email (add_book_to_library utcnow book_id) db)"
| "handle hashpw checkpw (GetMyBooks email) db =
     respond BooksBody (with_current_user email get_my_books db)"
| "handle hashpw checkpw (MarkBookAsRead email book_id) db =
     respond Message (with_current_user email (mark_book_as_read book_id) db)"
| "handle hashpw checkpw (SubscribeToPlan email plan_id) db =
     respond Message (with_current_user email (subscribe_to_plan plan_id) db)"

text \<open>The database after a sequence of requests, served one after the other.\<close>

fun run ::
  "(string \<Rightarrow> string \<Rightarrow> string) \<Rightarrow> (string \<Rightarrow> string \<Rightarrow> bool) \<Rightarrow> request list \<Rightarrow> database
     \<Rightarrow> database" where
  "run hashpw checkpw [] db = db"
| "run hashpw checkpw (r # rs) db = run hashpw checkpw rs (fst (handle hashpw checkpw r db))"

text \<open>
  The books a user acquired during a sequence of requests, in the order of the
  acquisitions: the ids of the add-to-library requests of that user that were answered
  with success.
\<close>

fun acquisitions ::
  "(string \<Rightarrow> string \<Rightarrow> string) \<Rightarrow> (string \<Rightarrow> string \<Rightarrow> bool) \<Rightarrow> string \<Rightarrow> request list
     \<Rightarrow> database \<Rightarrow> int list" where
  "acquisitions hashpw checkpw email [] db = []"
| "acquisitions hashpw checkpw email (r # rs) db =
     (case r of
        AddBookToLibrary email' book_id utcnow \<Rightarrow>
          (if email' = email \<and> \<not> isl (snd (handle hashpw checkpw r db)) then [book_id] else [])
      | _ \<Rightarrow> [])
     @ acquisitions hashpw checkpw email rs (fst (handle hashpw checkpw r db))"

section \<open>Two acquisitions at once\<close>

text \<open>
  The endpoints are plain functions, which the framework runs in a pool of threads, so a
  second request can run between two statements of a first. The statements of
  \<^verbatim>\<open>add_book_to_library\<close> up to its last check only read the database; the rest inserts
  the row and commits.
\<close>

definition add_book_to_library_checks :: "int \<Rightarrow> user \<Rightarrow> database \<Rightarrow> http_error + unit" where
  "add_book_to_library_checks book_id current_user db =
     (case find (\<lambda>b. b_id b = book_id) (books db) of
        None \<Rightarrow> Inl (HTTPException 404 ''Book not found'')
      | Some book \<Rightarrow>
          (case find (\<lambda>ub. ub_user_id ub = u_id current_user \<and> ub_book_id ub = book_id)
                  (user_books db) of
             Some _ \<Rightarrow> Inl (HTTPException 400 ''Book already in library'')
           | None \<Rightarrow>
               if b_is_premium book \<and> u_subscription_plan current_user = ''free''
               then Inl (HTTPException 403 ''Premium subscription required'')
               else Inr ()))"

definition add_book_to_library_commit ::
  "datetime \<Rightarrow> int \<Rightarrow> user \<Rightarrow> database \<Rightarrow> database \<times> (http_error + string)" where
  "add_book_to_library_commit utcnow book_id current_user db =
     (let user_book = \<lparr>ub_id = next_rowid (map ub_id (user_books db)),
                       ub_user_id = u_id current_user,
                       ub_book_id = book_id,
                       ub_is_read = False,
                       ub_added_at = utcnow\<rparr>
      in (db\<lparr>user_books := user_books db @ [user_book]\<rparr>, Inr ''Book added to library''))"

text \<open>
  A request to add a book is received, then has passed its checks, then is answered. Each
  step reads or writes the database as it is at that moment.
\<close>

datatype add_request =
  Received datetime int user
| Checked datetime int user
| Answered "http_error + string"

fun step_add :: "add_request \<Rightarrow> database \<Rightarrow> add_request \<times> database" where
  "step_add (Received utcnow book_id current_user) db =
     (case add_book_to_library_checks book_id current_user db of
        Inl e \<Rightarrow> (Answered (Inl e), db)
      | Inr _ \<Rightarrow> (Checked utcnow book_id current_user, db))"
| "step_add (Checked utcnow book_id current_user) db =
     (case add_book_to_library_commit utcnow book_id current_user db of
        (db', response) \<Rightarrow> (Answered response, db'))"
| "step_add (Answered response) db = (Answered response, db)"

text \<open>Two requests in flight, and which of them takes the next step.\<close>

datatype thread = First | Second

fun schedule ::
  "thread list \<Rightarrow> add_request \<times> add_request \<times> database \<Rightarrow> add_request \<times> add_request \<times> database" where
  "schedule [] state = state"
| "schedule (First # ts) (a, b, db) =
     (case step_add a db of (a', db') \<Rightarrow> schedule ts (a', b, db'))"
| "schedule (Second # ts) (a, b, db) =
     (case step_add b db of (b', db') \<Rightarrow> schedule ts (a, b', db'))"

section \<open>Vocabulary of the properties\<close>

text \<open>A user holds an ownership record for a book: some row of the table relates the two.\<close>

definition owns :: "database \<Rightarrow> int \<Rightarrow> int \<Rightarrow> bool" where
  "owns db uid book_id \<longleftrightarrow>
     (\<exists>ub \<in> set (user_books db). ub_user_id ub = uid \<and> ub_book_id ub = book_id)"

text \<open>
  The row that the ownership query of an endpoint returns for a user and the id of a
  request, when it returns one: the first row of the pair, for an id that the store binds.
\<close>

definition ownership :: "database \<Rightarrow> int \<Rightarrow> int \<Rightarrow> user_book option" where
  "ownership db uid book_id =
     (if in_int64 book_id
      then find (\<lambda>ub. ub_user_id ub = uid \<and> ub_book_id ub = book_id) (user_books db)
      else None)"

subsection \<open>Sample data\<close>

text \<open>The seeded database with one registered user on the free plan.\<close>

definition seeded :: database where
  "seeded = fst (seed_data create_all)"

definition alice :: user where
  "alice = \<lparr>u_id = 1, u_email = ''a@x.com'', u_hashed_password = ''$2b$12$salt.digest'',
            u_is_active = True, u_subscription_plan = ''free'', u_created_at = 0\<rparr>"

definition sample_db :: database where
  "sample_db = seeded\<lparr>users := [alice]\<rparr>"

text \<open>A stand-in for the password hash of the library, for the examples only.\<close>

definition toy_hashpw :: "string \<Rightarrow> string \<Rightarrow> string" where
  "toy_hashpw password salt = salt @ rev password"

definition toy_checkpw :: "string \<Rightarrow> string \<Rightarrow> bool" where
  "toy_checkpw password hashed = (rev password = drop (length hashed - length password) hashed)"

text \<open>The sample database after the user added the first book, not yet read.\<close>

definition alice_library :: database where
  "alice_library = sample_db\<lparr>user_books :=
     [\<lparr>ub_id = 1, ub_user_id = 1, ub_book_id = 1, ub_is_read = False, ub_added_at = 7\<rparr>]\<rparr>"

text \<open>The pairs of user and book that the ownership table relates, row by row.\<close>

definition ownership_pairs :: "database \<Rightarrow> (int \<times> int) list" where
  "ownership_pairs db = map (\<lambda>ub. (ub_user_id ub, ub_book_id ub)) (user_books db)"

text \<open>What every request preserves: user ids are unique, and every ownership row refers to a
  user and to a book that exist.\<close>

definition db_inv :: "database \<Rightarrow> bool" where
  "db_inv db \<longleftrightarrow>
     distinct (map u_id (users db))
     \<and> (\<forall>ub \<in> set (user_books db).
           (\<exists>u \<in> set (users db). u_id u = ub_user_id ub)
           \<and> (\<exists>b \<in> set (books db). b_id b = ub_book_id ub))"

text \<open>The ids of the books of the ownership rows of the user with an email, in table order.\<close>

definition owned_ids :: "string \<Rightarrow> database \<Rightarrow> int list" where
  "owned_ids email db =
     (case get_current_user email db of
        Inl _ \<Rightarrow> []
      | Inr u \<Rightarrow> map ub_book_id (filter (\<lambda>ub. ub_user_id ub = u_id u) (user_books db)))"

text \<open>A session: seeding, two registrations, acquisitions of both users, one of them refused,
  and an upgrade.\<close>

definition demo_requests :: "request list" where
  "demo_requests =
     [SeedData,
      Register \<lparr>uc_email = ''a@x.com'', uc_password = ''pw1''\<rparr> ''s1'' 10,
      Register \<lparr>uc_email = ''b@x.com'', uc_password = ''pw2''\<rparr> ''s2'' 11,
      AddBookToLibrary ''a@x.com'' 4 20,
      AddBookToLibrary ''b@x.com'' 1 21,
      AddBookToLibrary ''a@x.com'' 2 22,
      SubscribeToPlan ''a@x.com'' 2,
      AddBookToLibrary ''a@x.com'' 2 23,
      AddBookToLibrary ''a@x.com'' 1 24]"

text \<open>The database after that session.\<close>

definition demo_db :: database where
  "demo_db = run toy_hashpw toy_checkpw demo_requests create_all"

text \<open>The first user of that session, as stored after the upgrade.\<close>

definition alice_premium :: user where
  "alice_premium = \<lparr>u_id = 1, u_email = ''a@x.com'', u_hashed_password = ''s11wp'',
     u_is_active = True, u_subscription_plan = ''premium'', u_created_at = 10\<rparr>"

section \<open>Lemmas about the operations\<close>

subsection \<open>Unfolding the sample data\<close>

lemmas eval_defs = seeded_def seed_data_def create_all_def seed_plans_def seed_books_def next_rowid_def
  alice_def sample_db_def in_int64_def

subsection \<open>Queries\<close>

lemma mark_read_unbound:
  "\<not> in_int64 book_id \<Longrightarrow>
     mark_book_as_read book_id cu db = (db, Inl (HTTPException 500 ''Internal Server Error''))"
  by (simp add: mark_book_as_read_def)

lemma mark_read_bound:
  "in_int64 book_id \<Longrightarrow>
     mark_book_as_read book_id cu db =
       (case find (\<lambda>ub. ub_user_id ub = u_id cu \<and> ub_book_id ub = book_id) (user_books db) of
          None \<Rightarrow> (db, Inl (HTTPException 404 ''Book not in your library''))
        | Some user_book \<Rightarrow>
            (db\<lparr>user_books :=
                   map (\<lambda>ub. if ub_id ub = ub_id user_book then ub\<lparr>ub_is_read := True\<rparr> else ub)
                     (user_books db)\<rparr>,
             Inr ''Book marked as read''))"
  by (simp add: mark_book_as_read_def)

lemma find_owned_None:
  "find (\<lambda>ub. ub_user_id ub = uid \<and> ub_book_id ub = bid) (user_books db) = None \<longleftrightarrow> \<not> owns db uid bid"
  by (auto simp: owns_def find_None_iff)

lemma find_owned_Some:
  "owns db uid bid \<Longrightarrow> \<exists>ub. find (\<lambda>ub. ub_user_id ub = uid \<and> ub_book_id ub = bid) (user_books db) = Some ub"
  using find_owned_None [of uid bid db] by auto

lemma find_map_same:
  assumes "\<And>x. P (f x) = P x"
  shows "find P (map f xs) = map_option f (find P xs)"
  using assms by (induction xs) auto

lemma mark_read_twice:
  assumes "find (\<lambda>ub. ub_user_id ub = uid \<and> ub_book_id ub = bid) rows = Some ub"
  defines "upd \<equiv> (\<lambda>r. if ub_id r = ub_id ub then r\<lparr>ub_is_read := True\<rparr> else r)"
  shows "find (\<lambda>ub. ub_user_id ub = uid \<and> ub_book_id ub = bid) (map upd rows)
           = Some (ub\<lparr>ub_is_read := True\<rparr>)"
    and "map (\<lambda>r. if ub_id r = ub_id (ub\<lparr>ub_is_read := True\<rparr>) then r\<lparr>ub_is_read := True\<rparr> else r)
           (map upd rows) = map upd rows"
proof -
  have "find (\<lambda>ub. ub_user_id ub = uid \<and> ub_book_id ub = bid) (map upd rows)
          = map_option upd (find (\<lambda>ub. ub_user_id ub = uid \<and> ub_book_id ub = bid) rows)"
    by (rule find_map_same) (simp add: upd_def)
  then show "find (\<lambda>ub. ub_user_id ub = uid \<and> ub_book_id ub = bid) (map upd rows)
           = Some (ub\<lparr>ub_is_read := True\<rparr>)"
    using assms(1) by (simp add: upd_def)
  show "map (\<lambda>r. if ub_id r = ub_id (ub\<lparr>ub_is_read := True\<rparr>) then r\<lparr>ub_is_read := True\<rparr> else r)
           (map upd rows) = map upd rows"
    by (simp add: upd_def)
qed

subsection \<open>Failure paths\<close>

lemma with_current_user_failure:
  assumes "\<And>u. isl (snd (endpoint u db)) \<Longrightarrow> fst (endpoint u db) = db"
  shows "isl (snd (with_current_user email endpoint db))
           \<Longrightarrow> fst (with_current_user email endpoint db) = db"
  using assms by (auto simp: with_current_user_def split: sum.splits)

lemma register_failure:
  "isl (snd (register hashpw gensalt utcnow uc db)) \<Longrightarrow> fst (register hashpw gensalt utcnow uc db) = db"
  by (auto simp: register_def Let_def split: option.splits)

lemma login_unchanged: "fst (login checkpw utcnow ul db) = db"
  by (auto simp: login_def split: option.splits)

lemma add_book_failure:
  "isl (snd (add_book_to_library utcnow book_id u db)) \<Longrightarrow> fst (add_book_to_library utcnow book_id u db) = db"
  by (auto simp: add_book_to_library_def Let_def split: option.splits if_splits)

lemma mark_read_failure:
  "isl (snd (mark_book_as_read book_id u db)) \<Longrightarrow> fst (mark_book_as_read book_id u db) = db"
  by (auto simp: mark_book_as_read_def split: option.splits)

lemma subscribe_failure:
  "isl (snd (subscribe_to_plan plan_id u db)) \<Longrightarrow> fst (subscribe_to_plan plan_id u db) = db"
  by (auto simp: subscribe_to_plan_def split: option.splits)

lemma get_my_books_unchanged: "fst (get_my_books u db) = db"
  by (simp add: get_my_books_def Let_def)

lemma seed_data_failure:
  "isl (snd (seed_data db)) \<Longrightarrow> fst (seed_data db) = db"
  by (auto simp: seed_data_def split: list.splits if_splits)

lemma fst_respond [simp]: "fst (respond body r) = fst r"
  by (simp add: respond_def)

lemma isl_respond [simp]: "isl (snd (respond body r)) = isl (snd r)"
  by (cases "snd r") (simp_all add: respond_def)

subsection \<open>Registration\<close>

lemma find_email_None:
  "find (\<lambda>u. u_email u = e) us = None \<longleftrightarrow> (\<forall>u \<in> set us. u_email u \<noteq> e)"
  by (auto simp: find_None_iff)

lemma find_append:
  "find P (xs @ ys) = (case find P xs of None \<Rightarrow> find P ys | Some x \<Rightarrow> Some x)"
  by (induction xs) auto

lemma register_then_duplicate:
  "\<exists>u \<in> set (users (fst (register hashpw gensalt utcnow uc db))). u_email u = uc_email uc"
proof (cases "find (\<lambda>u. u_email u = uc_email uc) (users db)")
  case None
  then show ?thesis by (simp add: register_def Let_def)
next
  case (Some u)
  then have "u \<in> set (users db) \<and> u_email u = uc_email uc"
    by (auto simp: find_Some_iff)
  with Some show ?thesis by (auto simp: register_def)
qed

lemma register_duplicate:
  assumes "\<exists>u \<in> set (users db). u_email u = uc_email uc"
  shows "register hashpw gensalt utcnow uc db = (db, Inl DuplicateIdentity)"
proof -
  from assms have "find (\<lambda>u. u_email u = uc_email uc) (users db) \<noteq> None"
    by (simp add: find_email_None)
  then show ?thesis
    by (auto simp: register_def DuplicateIdentity_def)
qed

subsection \<open>Whole seconds\<close>

lemma floor_seconds:
  fixes t :: int
  shows "t div 1000000 * 1000000 \<le> t" and "t < t div 1000000 * 1000000 + 1000000"
proof -
  have "t div 1000000 * 1000000 + t mod 1000000 = t"
    by simp
  moreover have "0 \<le> t mod 1000000" and "t mod 1000000 < 1000000"
    by simp_all
  ultimately show "t div 1000000 * 1000000 \<le> t" and "t < t div 1000000 * 1000000 + 1000000"
    by linarith+
qed

subsection \<open>Listing the books of a user\<close>

lemma book_responses_Inr:
  "book_responses xs = Inr rs \<longleftrightarrow> xs = map Some (map the xs) \<and> None \<notin> set xs
      \<and> rs = map (\<lambda>x. BookResponse (the x)) xs"
proof (induction xs arbitrary: rs rule: book_responses.induct)
  case 1
  then show ?case by auto
next
  case (2 bs)
  then show ?case by auto
next
  case (3 b bs)
  then show ?case by (cases "book_responses bs") auto
qed

lemma get_my_books_snd_cong:
  assumes "u_id u' = u_id u" "user_books db' = user_books db" "books db' = books db"
  shows "snd (get_my_books u' db') = snd (get_my_books u db)"
  using assms by (simp add: get_my_books_def Let_def)

lemma mark_read_snd_cong:
  assumes "u_id u' = u_id u" "user_books db' = user_books db"
  shows "snd (mark_book_as_read book_id u' db') = snd (mark_book_as_read book_id u db)"
  using assms by (simp add: mark_book_as_read_def split: option.splits)

lemma mark_read_keeps_listing:
  "snd (get_my_books u (fst (mark_book_as_read book_id u' db))) = snd (get_my_books u db)"
proof (cases "in_int64 book_id
    \<and> find (\<lambda>ub. ub_user_id ub = u_id u' \<and> ub_book_id ub = book_id) (user_books db) \<noteq> None")
  case False
  then have "fst (mark_book_as_read book_id u' db) = db"
    by (cases "in_int64 book_id") (auto simp: mark_read_unbound mark_read_bound)
  then show ?thesis by simp
next
  case True
  then obtain row where bound: "in_int64 book_id"
    and Some: "find (\<lambda>ub. ub_user_id ub = u_id u' \<and> ub_book_id ub = book_id) (user_books db)
                 = Some row"
    by auto
  define upd :: "user_book \<Rightarrow> user_book" where "upd = (\<lambda>ub. if ub_id ub = ub_id row then ub\<lparr>ub_is_read := True\<rparr> else ub)"
  have keep: "ub_user_id (upd x) = ub_user_id x" "ub_book_id (upd x) = ub_book_id x" for x
    by (simp_all add: upd_def)
  have f: "filter (\<lambda>ub. ub_user_id ub = u_id u) (map upd (user_books db))
             = map upd (filter (\<lambda>ub. ub_user_id ub = u_id u) (user_books db))"
    by (simp add: filter_map comp_def keep)
  have "fst (mark_book_as_read book_id u' db) = db\<lparr>user_books := map upd (user_books db)\<rparr>"
    using Some by (simp add: mark_read_bound [OF bound] upd_def)
  then show ?thesis
    by (simp add: get_my_books_def Let_def f comp_def keep)
qed

subsection \<open>Each operation keeps the invariant and the books of every user\<close>

lemma next_rowid_greater: "i \<in> set ids \<Longrightarrow> i < next_rowid ids"
proof (cases ids)
  case Nil
  then show "i \<in> set ids \<Longrightarrow> i < next_rowid ids" by simp
next
  case (Cons a rest)
  assume "i \<in> set ids"
  then have "i \<le> Max (set (a # rest))"
    using Cons by (intro Max_ge) auto
  moreover have "fold max rest a = Max (set (a # rest))"
    by (simp only: Max.set_eq_fold)
  ultimately show "i < next_rowid ids"
    using Cons by (simp add: next_rowid_def)
qed

lemma next_rowid_fresh: "next_rowid ids \<notin> set ids"
  using next_rowid_greater [of "next_rowid ids" ids] by auto

lemma get_current_user_Inr:
  "get_current_user email db = Inr u \<longleftrightarrow> find (\<lambda>u. u_email u = email) (users db) = Some u"
  by (simp add: get_current_user_def split: option.splits)

lemma get_current_user_member:
  "get_current_user email db = Inr u \<Longrightarrow> u \<in> set (users db) \<and> u_email u = email"
  by (auto simp: get_current_user_Inr find_Some_iff)

lemma get_current_user_Inl:
  "isl (get_current_user email db) \<longleftrightarrow> (\<forall>u \<in> set (users db). u_email u \<noteq> email)"
proof (cases "find (\<lambda>u. u_email u = email) (users db)")
  case None
  then have "\<forall>u \<in> set (users db). u_email u \<noteq> email"
    by (simp add: find_None_iff)
  with None show ?thesis
    by (simp add: get_current_user_def)
next
  case (Some u)
  then have "u \<in> set (users db) \<and> u_email u = email"
    by (auto simp: find_Some_iff)
  with Some show ?thesis
    by (auto simp: get_current_user_def)
qed

lemma register_users:
  "users (fst (register hashpw gensalt utcnow uc db)) = users db
   \<or> (\<exists>new. users (fst (register hashpw gensalt utcnow uc db)) = users db @ [new]
        \<and> u_id new = next_rowid (map u_id (users db)) \<and> u_email new = uc_email uc
        \<and> (\<forall>u \<in> set (users db). u_email u \<noteq> uc_email uc))"
  by (auto simp: register_def Let_def find_None_iff split: option.splits)

lemma register_others:
  "user_books (fst (register hashpw gensalt utcnow uc db)) = user_books db"
  "books (fst (register hashpw gensalt utcnow uc db)) = books db"
  by (auto simp: register_def Let_def split: option.splits)

lemma register_inv:
  assumes "db_inv db"
  shows "db_inv (fst (register hashpw gensalt utcnow uc db))"
  using register_users [of hashpw gensalt utcnow uc db] assms
    next_rowid_fresh [of "map u_id (users db)"]
  unfolding db_inv_def register_others by auto

lemma owned_ids_fresh_user:
  assumes "db_inv db" "uid \<notin> set (map u_id (users db))"
  shows "filter (\<lambda>ub. ub_user_id ub = uid) (user_books db) = []"
proof -
  have "ub_user_id ub \<noteq> uid" if "ub \<in> set (user_books db)" for ub
  proof -
    from assms(1) that obtain u where "u \<in> set (users db)" "u_id u = ub_user_id ub"
      unfolding db_inv_def by blast
    with assms(2) show ?thesis by (force simp: image_iff)
  qed
  then show ?thesis by (simp add: filter_empty_conv)
qed

lemma register_owned_ids:
  assumes "db_inv db"
  shows "owned_ids email (fst (register hashpw gensalt utcnow uc db)) = owned_ids email db"
proof -
  let ?db' = "fst (register hashpw gensalt utcnow uc db)"
  from register_users [of hashpw gensalt utcnow uc db]
  consider "users ?db' = users db"
    | new where "users ?db' = users db @ [new]" "u_id new = next_rowid (map u_id (users db))"
        "u_email new = uc_email uc" "\<forall>u \<in> set (users db). u_email u \<noteq> uc_email uc"
    by blast
  then show ?thesis
  proof cases
    case 1
    then show ?thesis
      by (simp add: owned_ids_def get_current_user_def register_others cong: sum.case_cong)
  next
    case 2
    show ?thesis
    proof (cases "find (\<lambda>u. u_email u = email) (users db)")
      case (Some u)
      with 2 show ?thesis
        by (simp add: owned_ids_def get_current_user_def register_others find_append
              cong: sum.case_cong)
    next
      case None
      have "filter (\<lambda>ub. ub_user_id ub = u_id new) (user_books db) = []"
        using assms 2(2) next_rowid_fresh [of "map u_id (users db)"]
        by (intro owned_ids_fresh_user) auto
      with None 2 show ?thesis
        by (simp add: owned_ids_def get_current_user_def register_others find_append
              cong: sum.case_cong)
    qed
  qed
qed

lemma seed_data_users:
  "users (fst (seed_data db)) = users db" "user_books (fst (seed_data db)) = user_books db"
  by (auto simp: seed_data_def split: list.splits)

lemma seed_data_books:
  "books (fst (seed_data db)) = books db \<or> books db = []"
  by (auto simp: seed_data_def split: list.splits)

lemma seed_data_inv:
  assumes "db_inv db"
  shows "db_inv (fst (seed_data db))"
proof (cases "books db = []")
  case True
  with assms have "user_books db = []"
    by (cases "user_books db") (auto simp: db_inv_def)
  with assms show ?thesis
    by (simp add: db_inv_def seed_data_users)
next
  case False
  with seed_data_books [of db] have "books (fst (seed_data db)) = books db" by simp
  with assms show ?thesis
    by (simp add: db_inv_def seed_data_users)
qed

lemma seed_data_owned_ids: "owned_ids email (fst (seed_data db)) = owned_ids email db"
  by (simp add: owned_ids_def get_current_user_def seed_data_users cong: sum.case_cong)

lemma subscribe_tables:
  "user_books (fst (subscribe_to_plan plan_id cu db)) = user_books db"
  "books (fst (subscribe_to_plan plan_id cu db)) = books db"
  "map u_id (users (fst (subscribe_to_plan plan_id cu db))) = map u_id (users db)"
  "map u_email (users (fst (subscribe_to_plan plan_id cu db))) = map u_email (users db)"
  by (auto simp: subscribe_to_plan_def split: option.splits)

lemma set_users_ids:
  "(\<exists>u \<in> set us. u_id u = i) \<longleftrightarrow> i \<in> set (map u_id us)"
  by auto

lemma subscribe_inv:
  assumes "db_inv db"
  shows "db_inv (fst (subscribe_to_plan plan_id cu db))"
  using assms unfolding db_inv_def set_users_ids subscribe_tables by simp

lemma subscribe_current_user:
  "get_current_user email (fst (subscribe_to_plan plan_id cu db))
     = map_sum id (\<lambda>u. if u_id u = u_id cu
                        then (case find (\<lambda>p. p_id p = plan_id) (subscription_plans db) of
                                None \<Rightarrow> u | Some plan \<Rightarrow> u\<lparr>u_subscription_plan := p_name plan\<rparr>)
                        else u)
         (get_current_user email db)"
proof (cases "find (\<lambda>p. p_id p = plan_id) (subscription_plans db)")
  case None
  then show ?thesis
    by (cases "get_current_user email db") (simp_all add: subscribe_to_plan_def)
next
  case (Some plan)
  let ?f = "\<lambda>u. if u_id u = u_id cu then u\<lparr>u_subscription_plan := p_name plan\<rparr> else u"
  have "find (\<lambda>u. u_email u = email) (map ?f (users db))
          = map_option ?f (find (\<lambda>u. u_email u = email) (users db))"
    by (rule find_map_same) simp
  with Some show ?thesis
    by (cases "find (\<lambda>u. u_email u = email) (users db)")
       (simp_all add: subscribe_to_plan_def get_current_user_def)
qed

lemma subscribe_current_user_id:
  "map_sum id u_id (get_current_user email (fst (subscribe_to_plan plan_id cu db)))
     = map_sum id u_id (get_current_user email db)"
  unfolding subscribe_current_user
  by (cases "get_current_user email db") (auto split: option.splits)

lemma owned_ids_cong:
  assumes "map_sum id u_id (get_current_user email db') = map_sum id u_id (get_current_user email db)"
    and "user_books db' = user_books db"
  shows "owned_ids email db' = owned_ids email db"
  using assms
  by (cases "get_current_user email db'"; cases "get_current_user email db")
     (simp_all add: owned_ids_def)

lemma subscribe_owned_ids:
  "owned_ids email (fst (subscribe_to_plan plan_id cu db)) = owned_ids email db"
  by (rule owned_ids_cong) (simp_all add: subscribe_current_user_id subscribe_tables)

lemma mark_read_tables:
  "users (fst (mark_book_as_read book_id cu db)) = users db"
  "books (fst (mark_book_as_read book_id cu db)) = books db"
  "map ub_user_id (user_books (fst (mark_book_as_read book_id cu db)))
     = map ub_user_id (user_books db)"
  "map ub_book_id (user_books (fst (mark_book_as_read book_id cu db)))
     = map ub_book_id (user_books db)"
  "ownership_pairs (fst (mark_book_as_read book_id cu db)) = ownership_pairs db"
  by (auto simp: mark_book_as_read_def ownership_pairs_def split: option.splits)

lemma mark_read_rows:
  "\<exists>upd. user_books (fst (mark_book_as_read book_id cu db)) = map upd (user_books db)
     \<and> (\<forall>r. ub_user_id (upd r) = ub_user_id r \<and> ub_book_id (upd r) = ub_book_id r)"
proof (cases "in_int64 book_id
    \<and> find (\<lambda>ub. ub_user_id ub = u_id cu \<and> ub_book_id ub = book_id) (user_books db) \<noteq> None")
  case False
  then have "fst (mark_book_as_read book_id cu db) = db"
    by (cases "in_int64 book_id") (auto simp: mark_read_unbound mark_read_bound)
  then have "user_books (fst (mark_book_as_read book_id cu db)) = map (\<lambda>r. r) (user_books db)"
    by simp
  then show ?thesis by blast
next
  case True
  then obtain row where bound: "in_int64 book_id"
    and Some: "find (\<lambda>ub. ub_user_id ub = u_id cu \<and> ub_book_id ub = book_id) (user_books db)
                 = Some row"
    by auto
  let ?upd = "\<lambda>ub::user_book. if ub_id ub = ub_id row then ub\<lparr>ub_is_read := True\<rparr> else ub"
  have "user_books (fst (mark_book_as_read book_id cu db)) = map ?upd (user_books db)"
    using Some by (simp add: mark_read_bound [OF bound])
  moreover have "\<forall>r. ub_user_id (?upd r) = ub_user_id r \<and> ub_book_id (?upd r) = ub_book_id r"
    by simp
  ultimately show ?thesis by blast
qed

lemma mark_read_inv:
  assumes "db_inv db"
  shows "db_inv (fst (mark_book_as_read book_id cu db))"
proof -
  obtain upd where u: "user_books (fst (mark_book_as_read book_id cu db)) = map upd (user_books db)"
    "\<And>r. ub_user_id (upd r) = ub_user_id r" "\<And>r. ub_book_id (upd r) = ub_book_id r"
    using mark_read_rows [of book_id cu db] by blast
  show ?thesis
    using assms by (simp add: db_inv_def mark_read_tables u)
qed

lemma mark_read_owned_ids:
  "owned_ids email (fst (mark_book_as_read book_id cu db)) = owned_ids email db"
proof -
  obtain upd where u: "user_books (fst (mark_book_as_read book_id cu db)) = map upd (user_books db)"
    "\<And>r. ub_user_id (upd r) = ub_user_id r" "\<And>r. ub_book_id (upd r) = ub_book_id r"
    using mark_read_rows [of book_id cu db] by blast
  have "map ub_book_id (filter (\<lambda>ub. ub_user_id ub = i) (map upd (user_books db)))
          = map ub_book_id (filter (\<lambda>ub. ub_user_id ub = i) (user_books db))" for i
    by (simp add: filter_map comp_def u)
  then show ?thesis
    by (simp add: owned_ids_def get_current_user_def mark_read_tables u cong: sum.case_cong)
qed

lemma add_book_cases:
  "(isl (snd (add_book_to_library utcnow book_id cu db))
      \<and> fst (add_book_to_library utcnow book_id cu db) = db)
   \<or> (\<not> isl (snd (add_book_to_library utcnow book_id cu db))
      \<and> fst (add_book_to_library utcnow book_id cu db)
            = db\<lparr>user_books := user_books db @
                   [\<lparr>ub_id = next_rowid (map ub_id (user_books db)), ub_user_id = u_id cu,
                     ub_book_id = book_id, ub_is_read = False, ub_added_at = utcnow\<rparr>]\<rparr>
      \<and> (\<exists>b \<in> set (books db). b_id b = book_id)
      \<and> \<not> owns db (u_id cu) book_id)"
proof (cases "find (\<lambda>b. b_id b = book_id) (books db)")
  case None
  then show ?thesis by (simp add: add_book_to_library_def)
next
  case (Some book)
  then have b: "\<exists>b \<in> set (books db). b_id b = book_id"
    by (auto simp: find_Some_iff)
  show ?thesis
  proof (cases "find (\<lambda>ub. ub_user_id ub = u_id cu \<and> ub_book_id ub = book_id) (user_books db)")
    case (Some row)
    with \<open>find (\<lambda>b. b_id b = book_id) (books db) = Some book\<close> show ?thesis
      by (simp add: add_book_to_library_def)
  next
    case None
    then have "\<not> owns db (u_id cu) book_id"
      by (simp add: find_owned_None)
    with None b \<open>find (\<lambda>b. b_id b = book_id) (books db) = Some book\<close> show ?thesis
      by (simp add: add_book_to_library_def Let_def)
  qed
qed

lemma add_book_inv:
  assumes "db_inv db" "cu \<in> set (users db)"
  shows "db_inv (fst (add_book_to_library utcnow book_id cu db))"
proof (cases "isl (snd (add_book_to_library utcnow book_id cu db))")
  case True
  with add_book_cases [of utcnow book_id cu db] assms(1) show ?thesis by simp
next
  case False
  with add_book_cases [of utcnow book_id cu db]
  have db': "fst (add_book_to_library utcnow book_id cu db)
            = db\<lparr>user_books := user_books db @
                   [\<lparr>ub_id = next_rowid (map ub_id (user_books db)), ub_user_id = u_id cu,
                     ub_book_id = book_id, ub_is_read = False, ub_added_at = utcnow\<rparr>]\<rparr>"
    and b: "\<exists>b \<in> set (books db). b_id b = book_id"
    by simp_all
  have u: "\<exists>u \<in> set (users db). u_id u = u_id cu"
    using assms(2) by blast
  show ?thesis
    using assms(1) b u unfolding db' db_inv_def by simp
qed

lemma add_book_owned_ids:
  assumes "db_inv db" "get_current_user email' db = Inr cu"
  shows "owned_ids email (fst (add_book_to_library utcnow book_id cu db))
           = owned_ids email db
              @ (if email' = email \<and> \<not> isl (snd (add_book_to_library utcnow book_id cu db))
                 then [book_id] else [])"
proof (cases "isl (snd (add_book_to_library utcnow book_id cu db))")
  case True
  with add_book_cases [of utcnow book_id cu db] show ?thesis by simp
next
  case False
  with add_book_cases [of utcnow book_id cu db]
  have db': "fst (add_book_to_library utcnow book_id cu db)
            = db\<lparr>user_books := user_books db @
                   [\<lparr>ub_id = next_rowid (map ub_id (user_books db)), ub_user_id = u_id cu,
                     ub_book_id = book_id, ub_is_read = False, ub_added_at = utcnow\<rparr>]\<rparr>"
    by simp
  have cu: "cu \<in> set (users db)" "u_email cu = email'"
    using get_current_user_member [OF assms(2)] by simp_all
  show ?thesis
  proof (cases "get_current_user email db")
    case (Inl e)
    then have "email' \<noteq> email" using assms(2) by auto
    with Inl show ?thesis
      unfolding db' by (simp add: owned_ids_def get_current_user_def)
  next
    case (Inr u)
    have u: "u \<in> set (users db)" "u_email u = email"
      using get_current_user_member [OF Inr] by simp_all
    have same: "u_id cu = u_id u \<longleftrightarrow> email' = email"
    proof
      assume "u_id cu = u_id u"
      with assms(1) cu(1) u(1) have "cu = u"
        unfolding db_inv_def by (simp add: distinct_map inj_on_def)
      with cu(2) u(2) show "email' = email" by simp
    next
      assume "email' = email"
      with assms(2) Inr show "u_id cu = u_id u" by simp
    qed
    have g: "get_current_user email (db\<lparr>user_books := rows\<rparr>) = Inr u" for rows
      using Inr by (simp add: get_current_user_def)
    show ?thesis
      using False same Inr unfolding db' by (auto simp: owned_ids_def g)
  qed
qed

subsection \<open>Requests and sequences of requests\<close>

lemma snd_respond: "snd (respond body r) = map_sum id body (snd r)"
  by (simp add: respond_def)

lemma with_current_user_Inr:
  "get_current_user email db = Inr u \<Longrightarrow> with_current_user email endpoint db = endpoint u db"
  by (simp add: with_current_user_def)

lemma with_current_user_Inl:
  "get_current_user email db = Inl e \<Longrightarrow> with_current_user email endpoint db = (db, Inl e)"
  by (simp add: with_current_user_def)

lemma create_all_inv: "db_inv create_all"
  by (simp add: db_inv_def create_all_def)

lemma handle_inv:
  assumes "db_inv db"
  shows "db_inv (fst (handle hashpw checkpw r db))"
proof (cases r)
  case SeedData
  with assms show ?thesis by (simp add: seed_data_inv)
next
  case (Register uc salt t)
  with assms show ?thesis by (simp add: register_inv)
next
  case (Login ul t)
  with assms show ?thesis by (simp add: login_unchanged)
next
  case (AddBookToLibrary email bid t)
  show ?thesis
  proof (cases "get_current_user email db")
    case (Inl e)
    with assms AddBookToLibrary show ?thesis by (simp add: with_current_user_Inl)
  next
    case (Inr u)
    with assms AddBookToLibrary get_current_user_member [OF Inr] show ?thesis
      by (simp add: with_current_user_Inr add_book_inv)
  qed
next
  case (GetMyBooks email)
  with assms show ?thesis
    by (cases "get_current_user email db")
       (simp_all add: with_current_user_Inl with_current_user_Inr get_my_books_unchanged)
next
  case (MarkBookAsRead email bid)
  with assms show ?thesis
    by (cases "get_current_user email db")
       (simp_all add: with_current_user_Inl with_current_user_Inr mark_read_inv)
next
  case (SubscribeToPlan email pid)
  with assms show ?thesis
    by (cases "get_current_user email db")
       (simp_all add: with_current_user_Inl with_current_user_Inr subscribe_inv)
qed

lemma handle_owned_ids:
  assumes "db_inv db"
  shows "owned_ids email (fst (handle hashpw checkpw r db))
           = owned_ids email db @ acquisitions hashpw checkpw email [r] db"
proof (cases r)
  case SeedData
  then show ?thesis by (simp add: seed_data_owned_ids)
next
  case (Register uc salt t)
  with assms show ?thesis by (simp add: register_owned_ids)
next
  case (Login ul t)
  then show ?thesis by (simp add: login_unchanged)
next
  case (AddBookToLibrary email' bid t)
  show ?thesis
  proof (cases "get_current_user email' db")
    case (Inl e)
    with AddBookToLibrary show ?thesis by (simp add: with_current_user_Inl)
  next
    case (Inr u)
    with AddBookToLibrary add_book_owned_ids [OF assms Inr, of email t bid] show ?thesis
      by (simp add: with_current_user_Inr)
  qed
next
  case (GetMyBooks email')
  then show ?thesis
    by (cases "get_current_user email' db")
       (simp_all add: with_current_user_Inl with_current_user_Inr get_my_books_unchanged)
next
  case (MarkBookAsRead email' bid)
  then show ?thesis
    by (cases "get_current_user email' db")
       (simp_all add: with_current_user_Inl with_current_user_Inr mark_read_owned_ids)
next
  case (SubscribeToPlan email' pid)
  then show ?thesis
    by (cases "get_current_user email' db")
       (simp_all add: with_current_user_Inl with_current_user_Inr subscribe_owned_ids)
qed

lemma run_inv:
  "db_inv db \<Longrightarrow> db_inv (run hashpw checkpw rs db)"
  by (induction rs arbitrary: db) (simp_all add: handle_inv)

lemma run_owned_ids:
  "db_inv db \<Longrightarrow>
     owned_ids email (run hashpw checkpw rs db)
       = owned_ids email db @ acquisitions hashpw checkpw email rs db"
proof (induction rs arbitrary: db)
  case Nil
  then show ?case by simp
next
  case (Cons r rs)
  have "owned_ids email (run hashpw checkpw (r # rs) db)
          = owned_ids email (fst (handle hashpw checkpw r db))
              @ acquisitions hashpw checkpw email rs (fst (handle hashpw checkpw r db))"
    using Cons.IH [OF handle_inv [OF Cons.prems]] by simp
  also have "\<dots> = owned_ids email db @ acquisitions hashpw checkpw email [r] db
              @ acquisitions hashpw checkpw email rs (fst (handle hashpw checkpw r db))"
    by (simp add: handle_owned_ids [OF Cons.prems])
  also have "\<dots> = owned_ids email db @ acquisitions hashpw checkpw email (r # rs) db"
    by simp
  finally show ?case .
qed

lemma db_inv_book:
  "db_inv db \<Longrightarrow> ub \<in> set (user_books db) \<Longrightarrow> \<exists>b \<in> set (books db). b_id b = ub_book_id ub"
  unfolding db_inv_def by blast

lemma book_responses_total:
  "None \<notin> set xs \<Longrightarrow> book_responses xs = Inr (map (\<lambda>x. BookResponse (the x)) xs)"
  by (induction xs rule: book_responses.induct) auto

lemma get_my_books_inv:
  assumes "db_inv db"
  shows "get_my_books u db
           = (db, Inr (map (\<lambda>ub. BookResponse (the (find (\<lambda>b. b_id b = ub_book_id ub) (books db))))
                    (filter (\<lambda>ub. ub_user_id ub = u_id u) (user_books db))))"
proof -
  let ?rows = "filter (\<lambda>ub. ub_user_id ub = u_id u) (user_books db)"
  let ?look = "\<lambda>user_book. find (\<lambda>b. b_id b = ub_book_id user_book) (books db)"
  have "?look ub \<noteq> None" if "ub \<in> set (user_books db)" for ub
    using db_inv_book [OF assms that] by (auto simp: find_None_iff)
  then have "None \<notin> set (map ?look ?rows)"
    by (metis (mono_tags, lifting) filter_is_subset imageE list.set_map subsetD)
  then have "book_responses (map ?look ?rows) = Inr (map (\<lambda>x. BookResponse (the x)) (map ?look ?rows))"
    by (rule book_responses_total)
  then show ?thesis
    by (simp add: get_my_books_def Let_def comp_def)
qed

lemma found_book_id:
  assumes "db_inv db" "ub \<in> set (user_books db)"
  shows "\<exists>b \<in> set (books db). find (\<lambda>b. b_id b = ub_book_id ub) (books db) = Some b
           \<and> b_id b = ub_book_id ub"
proof -
  have "find (\<lambda>b. b_id b = ub_book_id ub) (books db) \<noteq> None"
    using db_inv_book [OF assms] by (auto simp: find_None_iff)
  then obtain b where "find (\<lambda>b. b_id b = ub_book_id ub) (books db) = Some b" by blast
  then show ?thesis
    by (auto simp: find_Some_iff)
qed

subsection \<open>The sample session\<close>

lemmas step_defs = respond_def with_current_user_def get_current_user_def register_def
  add_book_to_library_def subscribe_to_plan_def mark_book_as_read_def get_my_books_def
  hash_password_def toy_hashpw_def UserResponse_def BookResponse_def Let_def

lemma demo_users:
  "users demo_db =
     [\<lparr>u_id = 1, u_email = ''a@x.com'', u_hashed_password = ''s11wp'', u_is_active = True,
       u_subscription_plan = ''premium'', u_created_at = 10\<rparr>,
      \<lparr>u_id = 2, u_email = ''b@x.com'', u_hashed_password = ''s22wp'', u_is_active = True,
       u_subscription_plan = ''free'', u_created_at = 11\<rparr>]"
  by (simp add: demo_db_def demo_requests_def eval_defs step_defs)

lemma demo_acq:
  "acquisitions toy_hashpw toy_checkpw ''a@x.com'' demo_requests create_all = [4, 2, 1]"
  by (simp add: demo_requests_def eval_defs step_defs)

lemma demo_tables:
  "user_books demo_db =
     [\<lparr>ub_id = 1, ub_user_id = 1, ub_book_id = 4, ub_is_read = False, ub_added_at = 20\<rparr>,
      \<lparr>ub_id = 2, ub_user_id = 2, ub_book_id = 1, ub_is_read = False, ub_added_at = 21\<rparr>,
      \<lparr>ub_id = 3, ub_user_id = 1, ub_book_id = 2, ub_is_read = False, ub_added_at = 23\<rparr>,
      \<lparr>ub_id = 4, ub_user_id = 1, ub_book_id = 1, ub_is_read = False, ub_added_at = 24\<rparr>]"
  "books demo_db = books seeded"
  "subscription_plans demo_db = subscription_plans seeded"
  by (simp_all add: demo_db_def demo_requests_def eval_defs step_defs)

subsection \<open>Uniqueness of the ownership pairs\<close>

lemma distinct_count:
  "distinct (map f xs) \<Longrightarrow> length (filter (\<lambda>x. f x = y) xs) \<le> 1"
proof (induction xs)
  case Nil
  then show ?case by simp
next
  case (Cons x xs)
  then have "f x = y \<Longrightarrow> filter (\<lambda>x. f x = y) xs = []"
    by (force simp: filter_empty_conv image_iff)
  with Cons show ?case by auto
qed

lemma owns_pairs: "owns db uid bid \<longleftrightarrow> (uid, bid) \<in> set (ownership_pairs db)"
  by (auto simp: owns_def ownership_pairs_def image_iff)

lemma add_book_pairs:
  assumes "distinct (ownership_pairs db)"
  shows "distinct (ownership_pairs (fst (add_book_to_library utcnow book_id cu db)))"
proof (cases "isl (snd (add_book_to_library utcnow book_id cu db))")
  case True
  with add_book_cases [of utcnow book_id cu db] assms show ?thesis by simp
next
  case False
  with add_book_cases [of utcnow book_id cu db]
  have db': "fst (add_book_to_library utcnow book_id cu db)
            = db\<lparr>user_books := user_books db @
                   [\<lparr>ub_id = next_rowid (map ub_id (user_books db)), ub_user_id = u_id cu,
                     ub_book_id = book_id, ub_is_read = False, ub_added_at = utcnow\<rparr>]\<rparr>"
    and n: "\<not> owns db (u_id cu) book_id"
    by simp_all
  from n have "(u_id cu, book_id) \<notin> set (ownership_pairs db)"
    by (simp add: owns_pairs)
  with assms show ?thesis
    unfolding db' by (simp add: ownership_pairs_def)
qed

lemma handle_pairs:
  assumes "distinct (ownership_pairs db)"
  shows "distinct (ownership_pairs (fst (handle hashpw checkpw r db)))"
proof (cases r)
  case SeedData
  with assms show ?thesis by (simp add: ownership_pairs_def seed_data_users)
next
  case (Register uc salt t)
  with assms show ?thesis by (simp add: ownership_pairs_def register_others)
next
  case (Login ul t)
  with assms show ?thesis by (simp add: login_unchanged)
next
  case (AddBookToLibrary email bid t)
  with assms show ?thesis
    by (cases "get_current_user email db")
       (simp_all add: with_current_user_Inl with_current_user_Inr add_book_pairs)
next
  case (GetMyBooks email)
  with assms show ?thesis
    by (cases "get_current_user email db")
       (simp_all add: with_current_user_Inl with_current_user_Inr get_my_books_unchanged)
next
  case (MarkBookAsRead email bid)
  with assms show ?thesis
    by (cases "get_current_user email db")
       (simp_all add: with_current_user_Inl with_current_user_Inr mark_read_tables)
next
  case (SubscribeToPlan email pid)
  with assms show ?thesis
    by (cases "get_current_user email db")
       (simp_all add: with_current_user_Inl with_current_user_Inr ownership_pairs_def
          subscribe_tables)
qed

lemma run_pairs:
  "distinct (ownership_pairs db) \<Longrightarrow> distinct (ownership_pairs (run hashpw checkpw rs db))"
  by (induction rs arbitrary: db) (simp_all add: handle_pairs)

lemma get_my_books_lists_owned:
  assumes "owns db (u_id u) book_id" "snd (get_my_books u db) = Inr bs"
  shows "book_id \<in> br_id ` set bs"
proof -
  let ?rows = "filter (\<lambda>ub. ub_user_id ub = u_id u) (user_books db)"
  let ?look = "\<lambda>user_book. find (\<lambda>b. b_id b = ub_book_id user_book) (books db)"
  from assms(1) obtain ub where ub: "ub \<in> set (user_books db)" "ub_user_id ub = u_id u"
      "ub_book_id ub = book_id"
    unfolding owns_def by blast
  from assms(2) have "book_responses (map ?look ?rows) = Inr bs"
    by (simp add: get_my_books_def Let_def)
  then have none: "None \<notin> set (map ?look ?rows)"
    and bs: "bs = map (\<lambda>x. BookResponse (the x)) (map ?look ?rows)"
    by (simp_all add: book_responses_Inr)
  from ub have in_rows: "ub \<in> set ?rows" by simp
  with none obtain b where b: "?look ub = Some b"
    by (cases "?look ub") (auto simp: image_iff)
  then have "b_id b = book_id"
    using ub by (auto simp: find_Some_iff)
  moreover have "BookResponse b \<in> set bs"
    using in_rows b unfolding bs by (force simp: image_iff)
  ultimately show ?thesis
    by (force simp: BookResponse_def image_iff)
qed

lemma demo_current_user: "get_current_user ''a@x.com'' demo_db = Inr alice_premium"
  by (simp add: get_current_user_def demo_users alice_premium_def)

subsection \<open>The two halves of an acquisition\<close>

lemma add_book_to_library_halves:
  "add_book_to_library utcnow book_id current_user db =
     (case add_book_to_library_checks book_id current_user db of
        Inl e \<Rightarrow> (db, Inl e)
      | Inr _ \<Rightarrow> add_book_to_library_commit utcnow book_id current_user db)"
  by (auto simp: add_book_to_library_def add_book_to_library_checks_def
        add_book_to_library_commit_def Let_def split: option.splits)

lemma one_request_alone:
  "schedule [First, First] (Received utcnow book_id current_user, b, db) =
     (Answered (snd (add_book_to_library utcnow book_id current_user db)), b,
      fst (add_book_to_library utcnow book_id current_user db))"
  by (simp add: add_book_to_library_halves split: sum.splits prod.splits)

lemma served_in_turn:
  "schedule [First, First, Second, Second]
     (Received utcnow book_id current_user, Received later book_id' current_user', db) =
     (let r1 = add_book_to_library utcnow book_id current_user db;
          r2 = add_book_to_library later book_id' current_user' (fst r1)
      in (Answered (snd r1), Answered (snd r2), fst r2))"
  by (simp add: add_book_to_library_halves Let_def split: sum.splits prod.splits)

subsection \<open>The catalog of a reachable database\<close>

lemma seed_data_catalog:
  "books (fst (seed_data db)) = books db
   \<or> (books db = [] \<and> books (fst (seed_data db)) = add_books seed_books [])"
  by (auto simp: seed_data_def split: list.splits)

lemma handle_catalog:
  "books (fst (handle hashpw checkpw r db)) = books db
   \<or> (books db = [] \<and> books (fst (handle hashpw checkpw r db)) = add_books seed_books [])"
proof (cases r)
  case SeedData
  then show ?thesis using seed_data_catalog [of db] by simp
next
  case (Register uc salt t)
  then show ?thesis by (simp add: register_others)
next
  case (Login ul t)
  then show ?thesis by (simp add: login_unchanged)
next
  case (AddBookToLibrary email bid t)
  have "books (fst (add_book_to_library t bid u db)) = books db" for u
    using add_book_cases [of t bid u db] by auto
  with AddBookToLibrary show ?thesis
    by (cases "get_current_user email db")
       (simp_all add: with_current_user_Inl with_current_user_Inr)
next
  case (GetMyBooks email)
  then show ?thesis
    by (cases "get_current_user email db")
       (simp_all add: with_current_user_Inl with_current_user_Inr get_my_books_unchanged)
next
  case (MarkBookAsRead email bid)
  then show ?thesis
    by (cases "get_current_user email db")
       (simp_all add: with_current_user_Inl with_current_user_Inr mark_read_tables)
next
  case (SubscribeToPlan email pid)
  then show ?thesis
    by (cases "get_current_user email db")
       (simp_all add: with_current_user_Inl with_current_user_Inr subscribe_tables)
qed

lemma run_catalog:
  "books db = [] \<or> books db = add_books seed_books [] \<Longrightarrow>
     books (run hashpw checkpw rs db) = []
     \<or> books (run hashpw checkpw rs db) = add_books seed_books []"
proof (induction rs arbitrary: db)
  case Nil
  then show ?case by simp
next
  case (Cons r rs)
  from Cons.prems handle_catalog [of hashpw checkpw r db]
  have "books (fst (handle hashpw checkpw r db)) = []
        \<or> books (fst (handle hashpw checkpw r db)) = add_books seed_books []"
    by auto
  then show ?case
    using Cons.IH by simp
qed

lemma reachable_book_ids:
  assumes "b \<in> set (books (run hashpw checkpw rs create_all))"
  shows "in_int64 (b_id b)"
proof -
  have "books (run hashpw checkpw rs create_all) = []
        \<or> books (run hashpw checkpw rs create_all) = add_books seed_books []"
    by (rule run_catalog) (simp add: create_all_def)
  with assms have "b \<in> set (add_books seed_books [])"
    by auto
  then show ?thesis
    by (auto simp: seed_books_def next_rowid_def in_int64_def)
qed

lemma reachable_owned_id:
  assumes "owns (run hashpw checkpw rs create_all) uid book_id"
  shows "in_int64 book_id"
proof -
  let ?db = "run hashpw checkpw rs create_all"
  from assms obtain ub where "ub \<in> set (user_books ?db)" "ub_book_id ub = book_id"
    unfolding owns_def by blast
  moreover have "db_inv ?db"
    by (rule run_inv [OF create_all_inv])
  ultimately obtain b where "b \<in> set (books ?db)" "b_id b = book_id"
    using db_inv_book by blast
  then show ?thesis
    using reachable_book_ids by blast
qed

section \<open>The claims of the specification\<close>

text \<open>
  Claim C2. Adding a book is refused with the entitlement error exactly when the book
  exists, the user does not own it yet, the book is premium and the plan of the user at
  the call is the free one. Whenever the book exists, is not owned and is not refused
  for that reason, the call appends exactly one ownership row for the pair, unread and
  stamped with the current time, and answers with success.
\<close>

theorem acquire_denied_iff:
  "(snd (add_book_to_library utcnow book_id current_user db) = Inl EntitlementDenied \<longleftrightarrow>
      (\<exists>book. find (\<lambda>b. b_id b = book_id) (books db) = Some book \<and> b_is_premium book)
      \<and> \<not> owns db (u_id current_user) book_id
      \<and> u_subscription_plan current_user = ''free'')
   \<and> ((\<exists>book. find (\<lambda>b. b_id b = book_id) (books db) = Some book
          \<and> \<not> (b_is_premium book \<and> u_subscription_plan current_user = ''free''))
        \<and> \<not> owns db (u_id current_user) book_id \<longrightarrow>
       add_book_to_library utcnow book_id current_user db =
         (db\<lparr>user_books := user_books db @
               [\<lparr>ub_id = next_rowid (map ub_id (user_books db)),
                 ub_user_id = u_id current_user, ub_book_id = book_id,
                 ub_is_read = False, ub_added_at = utcnow\<rparr>]\<rparr>,
          Inr ''Book added to library''))"
proof (cases "find (\<lambda>b. b_id b = book_id) (books db)")
  case None
  then show ?thesis
    by (simp add: add_book_to_library_def EntitlementDenied_def)
next
  case (Some book)
  show ?thesis
  proof (cases "owns db (u_id current_user) book_id")
    case True
    then obtain ub where
      "find (\<lambda>ub. ub_user_id ub = u_id current_user \<and> ub_book_id ub = book_id)
         (user_books db) = Some ub"
      using find_owned_None [of "u_id current_user" book_id db] by auto
    with Some True show ?thesis
      by (simp add: add_book_to_library_def EntitlementDenied_def)
  next
    case False
    then have "find (\<lambda>ub. ub_user_id ub = u_id current_user \<and> ub_book_id ub = book_id)
         (user_books db) = None"
      by (simp add: find_owned_None)
    with Some False show ?thesis
      by (simp add: add_book_to_library_def EntitlementDenied_def Let_def)
  qed
qed

theorem acquire_denied_iff_witness:
  "snd (add_book_to_library 7 2 alice sample_db) = Inl EntitlementDenied
   \<and> add_book_to_library 7 1 alice sample_db =
       (sample_db\<lparr>user_books := [\<lparr>ub_id = 1, ub_user_id = 1, ub_book_id = 1,
                                   ub_is_read = False, ub_added_at = 7\<rparr>]\<rparr>,
        Inr ''Book added to library'')"
  using acquire_denied_iff [of 7 2 alice sample_db] acquire_denied_iff [of 7 1 alice sample_db]
  by (simp add: eval_defs owns_def)

text \<open>
  Marking as read with an id that the store binds. Without an ownership record of the
  pair the answer is the not-owned error and nothing is written. With one, the call
  succeeds and the database afterwards is the database before with the read flag set in
  the row that the query found (the rows are told apart by their id) and every other
  field of every row as it was; marking again succeeds and changes nothing.
\<close>

lemma mark_read_bound_behaviour:
  "in_int64 book_id \<longrightarrow>
     (\<not> owns db (u_id current_user) book_id \<longrightarrow>
        mark_book_as_read book_id current_user db = (db, Inl NotOwned))
     \<and> (owns db (u_id current_user) book_id \<longrightarrow>
          (\<exists>ub. ownership db (u_id current_user) book_id = Some ub))
     \<and> (\<forall>ub. ownership db (u_id current_user) book_id = Some ub \<longrightarrow>
          (let db' = db\<lparr>user_books :=
                          map (\<lambda>r. if ub_id r = ub_id ub then r\<lparr>ub_is_read := True\<rparr> else r)
                            (user_books db)\<rparr>
           in mark_book_as_read book_id current_user db = (db', Inr ''Book marked as read'')
              \<and> ownership db' (u_id current_user) book_id = Some (ub\<lparr>ub_is_read := True\<rparr>)
              \<and> mark_book_as_read book_id current_user db' = (db', Inr ''Book marked as read'')))"
proof (intro conjI impI allI)
  assume "in_int64 book_id" "\<not> owns db (u_id current_user) book_id"
  then show "mark_book_as_read book_id current_user db = (db, Inl NotOwned)"
    by (simp add: mark_read_bound NotOwned_def find_owned_None [symmetric])
next
  assume "in_int64 book_id" "owns db (u_id current_user) book_id"
  then show "\<exists>ub. ownership db (u_id current_user) book_id = Some ub"
    using find_owned_Some [of db "u_id current_user" book_id] by (simp add: ownership_def)
next
  fix ub
  assume bound: "in_int64 book_id"
    and "ownership db (u_id current_user) book_id = Some ub"
  then have f: "find (\<lambda>ub. ub_user_id ub = u_id current_user \<and> ub_book_id ub = book_id)
                  (user_books db) = Some ub"
    by (simp add: ownership_def)
  show "let db' = db\<lparr>user_books :=
                          map (\<lambda>r. if ub_id r = ub_id ub then r\<lparr>ub_is_read := True\<rparr> else r)
                            (user_books db)\<rparr>
           in mark_book_as_read book_id current_user db = (db', Inr ''Book marked as read'')
              \<and> ownership db' (u_id current_user) book_id = Some (ub\<lparr>ub_is_read := True\<rparr>)
              \<and> mark_book_as_read book_id current_user db' = (db', Inr ''Book marked as read'')"
    using f mark_read_twice [OF f]
    by (simp add: mark_read_bound [OF bound] ownership_def bound Let_def)
qed

lemma mark_read_bound_behaviour_example:
  "mark_book_as_read 1 alice sample_db = (sample_db, Inl NotOwned)
   \<and> mark_book_as_read 1 alice alice_library
       = (sample_db\<lparr>user_books := [\<lparr>ub_id = 1, ub_user_id = 1, ub_book_id = 1,
                                   ub_is_read = True, ub_added_at = 7\<rparr>]\<rparr>,
          Inr ''Book marked as read'')"
  using mark_read_bound_behaviour [of 1 sample_db alice]
    mark_read_bound_behaviour [of 1 alice_library alice]
  by (simp add: alice_library_def eval_defs owns_def ownership_def Let_def)

text \<open>
  Claim C6, at an input where the code breaks it: marking as read fails with the not-owned
  error whenever the user holds no ownership record for the id. In the database that the
  sample session reaches, the first user sends the id \<open>2\<^sup>6\<^sup>3\<close>. It is an integer, so
  the endpoint accepts it, and the user holds no record for it; the query cannot bind
  it, so the request ends in a 500 and not in the 404 of the not-owned error, with
  nothing written.
\<close>

theorem mark_read_unbound_id_is_500:
  "demo_db = run toy_hashpw toy_checkpw demo_requests create_all
   \<and> get_current_user ''a@x.com'' demo_db = Inr alice_premium
   \<and> \<not> owns demo_db (u_id alice_premium) 9223372036854775808
   \<and> mark_book_as_read 9223372036854775808 alice_premium demo_db
       = (demo_db, Inl (HTTPException 500 ''Internal Server Error''))
   \<and> handle toy_hashpw toy_checkpw (MarkBookAsRead ''a@x.com'' 9223372036854775808) demo_db
       = (demo_db, Inl (HTTPException 500 ''Internal Server Error''))
   \<and> HTTPException 500 ''Internal Server Error'' \<noteq> NotOwned"
proof (intro conjI)
  show "demo_db = run toy_hashpw toy_checkpw demo_requests create_all"
    by (rule demo_db_def)
qed (simp_all add: demo_current_user with_current_user_Inr respond_def mark_book_as_read_def
       in_int64_def owns_def demo_tables alice_premium_def NotOwned_def)

text \<open>
  Marking as read never looks at the catalog: the response is the same whatever the books
  table holds, and for an id that the store binds and a pair without an ownership record
  it is the 404 "Book not in your library", also when no book has that id.
\<close>

lemma mark_read_ignores_catalog:
  "snd (mark_book_as_read book_id current_user (db\<lparr>books := catalog\<rparr>))
     = snd (mark_book_as_read book_id current_user db)
   \<and> (in_int64 book_id \<and> \<not> owns db (u_id current_user) book_id \<longrightarrow>
        mark_book_as_read book_id current_user (db\<lparr>books := catalog\<rparr>)
          = (db\<lparr>books := catalog\<rparr>, Inl (HTTPException 404 ''Book not in your library'')))"
  by (simp add: mark_book_as_read_def find_owned_None [symmetric] split: option.splits)

lemma mark_read_ignores_catalog_example:
  "find (\<lambda>b. b_id b = 99) (books sample_db) = None
   \<and> mark_book_as_read 99 alice sample_db = (sample_db, Inl NotOwned)"
  using mark_read_ignores_catalog [where book_id = 99 and current_user = alice and db = sample_db
      and catalog = "books sample_db"]
  by (simp add: eval_defs owns_def NotOwned_def)

text \<open>
  Claim C10, at an input where the code breaks it: for every id without an ownership
  record marking as read answers the 404 "Book not in your library", also when no book
  has the id. In the database that the sample session reaches, no book has the id
  \<open>- 2\<^sup>6\<^sup>3 - 1\<close> and the first user holds no record for it, and the answer to the
  request is the 500 of the query that cannot bind the id.
\<close>

theorem mark_read_unbound_missing_book_is_500:
  "demo_db = run toy_hashpw toy_checkpw demo_requests create_all
   \<and> get_current_user ''a@x.com'' demo_db = Inr alice_premium
   \<and> find (\<lambda>b. b_id b = - 9223372036854775809) (books demo_db) = None
   \<and> \<not> owns demo_db (u_id alice_premium) (- 9223372036854775809)
   \<and> handle toy_hashpw toy_checkpw (MarkBookAsRead ''a@x.com'' (- 9223372036854775809)) demo_db
       = (demo_db, Inl (HTTPException 500 ''Internal Server Error''))
   \<and> snd (handle toy_hashpw toy_checkpw (MarkBookAsRead ''a@x.com'' (- 9223372036854775809))
             demo_db)
       \<noteq> Inl (HTTPException 404 ''Book not in your library'')"
proof (intro conjI)
  show "demo_db = run toy_hashpw toy_checkpw demo_requests create_all"
    by (rule demo_db_def)
qed (simp_all add: demo_current_user with_current_user_Inr respond_def mark_book_as_read_def
       in_int64_def owns_def demo_tables alice_premium_def eval_defs)

text \<open>
  Claim C4. A request that is answered with an error leaves the database exactly as it
  was: for registration, login, adding a book, marking as read and switching the plan,
  called on any user, and for every request served through the lookup of the current
  user. In particular a refused acquisition stores no ownership row.
\<close>

theorem failure_atomicity:
  "(isl (snd (register hashpw gensalt utcnow uc db))
      \<longrightarrow> fst (register hashpw gensalt utcnow uc db) = db)
   \<and> (isl (snd (login checkpw utcnow ul db)) \<longrightarrow> fst (login checkpw utcnow ul db) = db)
   \<and> (isl (snd (add_book_to_library utcnow book_id current_user db))
      \<longrightarrow> fst (add_book_to_library utcnow book_id current_user db) = db)
   \<and> (isl (snd (mark_book_as_read book_id current_user db))
      \<longrightarrow> fst (mark_book_as_read book_id current_user db) = db)
   \<and> (isl (snd (subscribe_to_plan plan_id current_user db))
      \<longrightarrow> fst (subscribe_to_plan plan_id current_user db) = db)
   \<and> (isl (snd (handle hashpw checkpw r db)) \<longrightarrow> fst (handle hashpw checkpw r db) = db)"
proof (intro conjI impI)
  assume "isl (snd (handle hashpw checkpw r db))"
  then show "fst (handle hashpw checkpw r db) = db"
  proof (cases r)
    case SeedData
    with \<open>isl (snd (handle hashpw checkpw r db))\<close> show ?thesis
      by (simp add: seed_data_failure)
  next
    case (Register uc' salt t)
    with \<open>isl (snd (handle hashpw checkpw r db))\<close> show ?thesis
      by (simp add: register_failure)
  next
    case (Login ul' t)
    then show ?thesis by (simp add: login_unchanged)
  next
    case (AddBookToLibrary email bid t)
    with \<open>isl (snd (handle hashpw checkpw r db))\<close> show ?thesis
      by (simp add: with_current_user_failure add_book_failure)
  next
    case (GetMyBooks email)
    with \<open>isl (snd (handle hashpw checkpw r db))\<close> show ?thesis
      by (simp add: with_current_user_failure get_my_books_unchanged)
  next
    case (MarkBookAsRead email bid)
    with \<open>isl (snd (handle hashpw checkpw r db))\<close> show ?thesis
      by (simp add: with_current_user_failure mark_read_failure)
  next
    case (SubscribeToPlan email pid)
    with \<open>isl (snd (handle hashpw checkpw r db))\<close> show ?thesis
      by (simp add: with_current_user_failure subscribe_failure)
  qed
qed (simp_all add: register_failure login_unchanged add_book_failure mark_read_failure
       subscribe_failure)

theorem failure_atomicity_witness:
  "register toy_hashpw ''s'' 3 \<lparr>uc_email = ''a@x.com'', uc_password = ''pw''\<rparr> sample_db
     = (sample_db, Inl DuplicateIdentity)
   \<and> login toy_checkpw 3 \<lparr>ul_email = ''nobody@x.com'', ul_password = ''pw''\<rparr> sample_db
     = (sample_db, Inl InvalidCredentials)
   \<and> add_book_to_library 3 2 alice sample_db = (sample_db, Inl EntitlementDenied)
   \<and> mark_book_as_read 2 alice sample_db = (sample_db, Inl NotOwned)
   \<and> subscribe_to_plan 9 alice sample_db = (sample_db, Inl PlanNotFound)
   \<and> handle toy_hashpw toy_checkpw (AddBookToLibrary ''nobody@x.com'' 1 3) sample_db
     = (sample_db, Inl UserNotFound)"
proof -
  have r: "snd (register toy_hashpw ''s'' 3 \<lparr>uc_email = ''a@x.com'', uc_password = ''pw''\<rparr> sample_db)
             = Inl DuplicateIdentity"
    by (simp add: eval_defs register_def DuplicateIdentity_def)
  have l: "snd (login toy_checkpw 3 \<lparr>ul_email = ''nobody@x.com'', ul_password = ''pw''\<rparr> sample_db)
             = Inl InvalidCredentials"
    by (simp add: eval_defs login_def InvalidCredentials_def)
  have a: "snd (add_book_to_library 3 2 alice sample_db) = Inl EntitlementDenied"
    by (simp add: eval_defs add_book_to_library_def EntitlementDenied_def)
  have m: "snd (mark_book_as_read 2 alice sample_db) = Inl NotOwned"
    by (simp add: eval_defs mark_book_as_read_def NotOwned_def)
  have s: "snd (subscribe_to_plan 9 alice sample_db) = Inl PlanNotFound"
    by (simp add: eval_defs subscribe_to_plan_def PlanNotFound_def)
  have h: "snd (handle toy_hashpw toy_checkpw (AddBookToLibrary ''nobody@x.com'' 1 3) sample_db)
             = Inl UserNotFound"
    by (simp add: eval_defs with_current_user_def get_current_user_def respond_def
          UserNotFound_def)
  note fa = failure_atomicity [where db = sample_db and hashpw = toy_hashpw
        and checkpw = toy_checkpw and gensalt = "''s''" and utcnow = 3
        and uc = "\<lparr>uc_email = ''a@x.com'', uc_password = ''pw''\<rparr>"
        and ul = "\<lparr>ul_email = ''nobody@x.com'', ul_password = ''pw''\<rparr>"
        and book_id = 2 and current_user = alice and plan_id = 9
        and r = "AddBookToLibrary ''nobody@x.com'' 1 3", unfolded r l a m s h]
  show ?thesis
    using fa r l a m s h unfolding prod_eq_iff by simp
qed

text \<open>
  Claim C5. Registering an email that a user already has fails with the duplicate error
  and stores nothing, whatever the password. Otherwise one user is appended whose stored
  secret is the library's hash of the password and the fresh salt, whose plan is
  \<open>''free''\<close>, and who is returned. A second registration of the same email fails with the
  duplicate error regardless of its password. The password reaches the database and the
  response through its hash only: two passwords with the same hash give the same result.
  The free plan is the cheapest of the seeded plans.
\<close>

theorem register_unique_default_plan:
  "((\<exists>u \<in> set (users db). u_email u = uc_email uc) \<longrightarrow>
      register hashpw gensalt utcnow uc db = (db, Inl DuplicateIdentity))
   \<and> ((\<forall>u \<in> set (users db). u_email u \<noteq> uc_email uc) \<longrightarrow>
        (let db_user = \<lparr>u_id = next_rowid (map u_id (users db)), u_email = uc_email uc,
                         u_hashed_password = hashpw (uc_password uc) gensalt,
                         u_is_active = True, u_subscription_plan = ''free'',
                         u_created_at = utcnow\<rparr>
         in register hashpw gensalt utcnow uc db
              = (db\<lparr>users := users db @ [db_user]\<rparr>, Inr (UserResponse db_user))
            \<and> ur_subscription_plan (UserResponse db_user) = ''free''))
   \<and> (let db1 = fst (register hashpw gensalt utcnow uc db) in
        register hashpw gensalt' utcnow' \<lparr>uc_email = uc_email uc, uc_password = p2\<rparr> db1
          = (db1, Inl DuplicateIdentity))
   \<and> (hashpw p2 gensalt = hashpw (uc_password uc) gensalt \<longrightarrow>
        register hashpw gensalt utcnow (uc\<lparr>uc_password := p2\<rparr>) db
          = register hashpw gensalt utcnow uc db)
   \<and> (\<forall>p \<in> set (subscription_plans (fst (seed_data create_all))).
         \<forall>q \<in> set (subscription_plans (fst (seed_data create_all))).
           p_name p = ''free'' \<longrightarrow> p_price p \<le> p_price q)"
proof (intro conjI impI)
  assume "\<exists>u \<in> set (users db). u_email u = uc_email uc"
  then show "register hashpw gensalt utcnow uc db = (db, Inl DuplicateIdentity)"
    by (rule register_duplicate)
next
  assume "\<forall>u \<in> set (users db). u_email u \<noteq> uc_email uc"
  then have "find (\<lambda>u. u_email u = uc_email uc) (users db) = None"
    by (simp add: find_email_None)
  then show "let db_user = \<lparr>u_id = next_rowid (map u_id (users db)), u_email = uc_email uc,
                         u_hashed_password = hashpw (uc_password uc) gensalt,
                         u_is_active = True, u_subscription_plan = ''free'',
                         u_created_at = utcnow\<rparr>
         in register hashpw gensalt utcnow uc db
              = (db\<lparr>users := users db @ [db_user]\<rparr>, Inr (UserResponse db_user))
            \<and> ur_subscription_plan (UserResponse db_user) = ''free''"
    by (simp add: register_def Let_def hash_password_def UserResponse_def)
next
  show "let db1 = fst (register hashpw gensalt utcnow uc db) in
        register hashpw gensalt' utcnow' \<lparr>uc_email = uc_email uc, uc_password = p2\<rparr> db1
          = (db1, Inl DuplicateIdentity)"
    using register_then_duplicate [of hashpw gensalt utcnow uc db]
    by (simp add: Let_def register_duplicate)
next
  assume "hashpw p2 gensalt = hashpw (uc_password uc) gensalt"
  then show "register hashpw gensalt utcnow (uc\<lparr>uc_password := p2\<rparr>) db
               = register hashpw gensalt utcnow uc db"
    by (simp add: register_def hash_password_def Let_def split: option.splits)
next
  show "\<forall>p \<in> set (subscription_plans (fst (seed_data create_all))).
         \<forall>q \<in> set (subscription_plans (fst (seed_data create_all))).
           p_name p = ''free'' \<longrightarrow> p_price p \<le> p_price q"
    by (simp add: seed_data_def create_all_def seed_plans_def next_rowid_def)
qed

theorem register_unique_default_plan_witness:
  "register toy_hashpw ''s2'' 9 \<lparr>uc_email = ''a@x.com'', uc_password = ''other''\<rparr> sample_db
     = (sample_db, Inl DuplicateIdentity)
   \<and> register toy_hashpw ''s1'' 5 \<lparr>uc_email = ''b@x.com'', uc_password = ''pw1''\<rparr> sample_db
     = (sample_db\<lparr>users := [alice,
          \<lparr>u_id = 2, u_email = ''b@x.com'', u_hashed_password = ''s11wp'', u_is_active = True,
            u_subscription_plan = ''free'', u_created_at = 5\<rparr>]\<rparr>,
        Inr \<lparr>ur_id = 2, ur_email = ''b@x.com'', ur_subscription_plan = ''free'',
              ur_is_active = True\<rparr>)"
  using register_unique_default_plan [where db = sample_db and hashpw = toy_hashpw
      and gensalt = "''s2''" and utcnow = 9
      and uc = "\<lparr>uc_email = ''a@x.com'', uc_password = ''other''\<rparr>"]
    register_unique_default_plan [where db = sample_db and hashpw = toy_hashpw
      and gensalt = "''s1''" and utcnow = 5
      and uc = "\<lparr>uc_email = ''b@x.com'', uc_password = ''pw1''\<rparr>"]
  by (simp add: eval_defs toy_hashpw_def UserResponse_def Let_def)

text \<open>
  Claim C7. A token issued for a subject resolves to that subject at the instant of
  issuance and at every instant up to one second before the thirty minutes are over, and
  resolving it fails with the invalid-token error at every instant from thirty minutes
  after issuance on. The token that a successful login returns is the
  token issued for the email of the login.
\<close>

theorem token_roundtrip_expiry:
  "verify_token (create_access_token [''sub'' \<mapsto> email] utcnow) utcnow = Inr email
   \<and> (\<forall>now. now + 1000000 \<le> utcnow + timedelta_minutes ACCESS_TOKEN_EXPIRE_MINUTES \<longrightarrow>
         verify_token (create_access_token [''sub'' \<mapsto> email] utcnow) now = Inr email)
   \<and> (\<forall>now. utcnow + timedelta_minutes ACCESS_TOKEN_EXPIRE_MINUTES \<le> now \<longrightarrow>
         verify_token (create_access_token [''sub'' \<mapsto> email] utcnow) now = Inl InvalidToken)
   \<and> (\<forall>tr. snd (login checkpw utcnow ul db) = Inr tr \<longrightarrow>
         access_token tr = create_access_token [''sub'' \<mapsto> ul_email ul] utcnow)"
proof (intro conjI allI impI)
  have "utcnow < (utcnow + 1800000000) div 1000000 * 1000000"
    using floor_seconds [of "utcnow + 1800000000"] by linarith
  then show "verify_token (create_access_token [''sub'' \<mapsto> email] utcnow) utcnow = Inr email"
    by (simp add: verify_token_def create_access_token_def jwt_encode_def jwt_decode_def
          timedelta_minutes_def ACCESS_TOKEN_EXPIRE_MINUTES_def Let_def)
next
  fix now
  assume "now + 1000000 \<le> utcnow + timedelta_minutes ACCESS_TOKEN_EXPIRE_MINUTES"
  then have "now < (utcnow + 1800000000) div 1000000 * 1000000"
    using floor_seconds [of "utcnow + 1800000000"]
    unfolding timedelta_minutes_def ACCESS_TOKEN_EXPIRE_MINUTES_def by linarith
  then show "verify_token (create_access_token [''sub'' \<mapsto> email] utcnow) now = Inr email"
    by (simp add: verify_token_def create_access_token_def jwt_encode_def jwt_decode_def
          timedelta_minutes_def ACCESS_TOKEN_EXPIRE_MINUTES_def Let_def)
next
  fix now
  assume "utcnow + timedelta_minutes ACCESS_TOKEN_EXPIRE_MINUTES \<le> now"
  then have "(utcnow + 1800000000) div 1000000 * 1000000 \<le> now"
    using floor_seconds [of "utcnow + 1800000000"]
    unfolding timedelta_minutes_def ACCESS_TOKEN_EXPIRE_MINUTES_def by linarith
  then show "verify_token (create_access_token [''sub'' \<mapsto> email] utcnow) now = Inl InvalidToken"
    by (simp add: verify_token_def create_access_token_def jwt_encode_def jwt_decode_def
          timedelta_minutes_def ACCESS_TOKEN_EXPIRE_MINUTES_def Let_def InvalidToken_def)
next
  fix tr
  assume "snd (login checkpw utcnow ul db) = Inr tr"
  then show "access_token tr = create_access_token [''sub'' \<mapsto> ul_email ul] utcnow"
    by (auto simp: login_def split: option.splits if_splits)
qed

theorem token_roundtrip_expiry_witness:
  "verify_token (create_access_token [''sub'' \<mapsto> ''a@x.com''] 1234567) 1234567 = Inr ''a@x.com''
   \<and> verify_token (create_access_token [''sub'' \<mapsto> ''a@x.com''] 1234567) 1801234567
       = Inl InvalidToken"
  using token_roundtrip_expiry [where email = "''a@x.com''" and utcnow = 1234567]
  by (simp add: timedelta_minutes_def ACCESS_TOKEN_EXPIRE_MINUTES_def)

text \<open>
  Claim C9, as stated: after a user marks an owned book as read, the list of the books of
  the user shows the book as read. It fails: marking the first book as read sets the flag
  of the stored row, and the list of the books of the user is word for word what it was
  before, since a \<^verbatim>\<open>BookResponse\<close> is made from the book and has no field for the flag.
\<close>

theorem read_flag_not_in_listing:
  "ownership alice_library 1 1
     = Some \<lparr>ub_id = 1, ub_user_id = 1, ub_book_id = 1, ub_is_read = False, ub_added_at = 7\<rparr>
   \<and> snd (mark_book_as_read 1 alice alice_library) = Inr ''Book marked as read''
   \<and> ownership (fst (mark_book_as_read 1 alice alice_library)) 1 1
     = Some \<lparr>ub_id = 1, ub_user_id = 1, ub_book_id = 1, ub_is_read = True, ub_added_at = 7\<rparr>
   \<and> snd (get_my_books alice (fst (mark_book_as_read 1 alice alice_library)))
     = snd (get_my_books alice alice_library)
   \<and> snd (get_my_books alice alice_library)
     = Inr [\<lparr>br_id = 1, br_title = ''The Python Guide'', br_author = ''John Doe'',
             br_genre = ''Programming'', br_description = ''Learn Python programming'',
             br_price = 29.99, br_is_premium = False\<rparr>]"
  by (simp add: alice_library_def eval_defs ownership_def mark_book_as_read_def
        get_my_books_def BookResponse_def Let_def)

text \<open>
  Claim C9, amended: after a user marks an owned book as read, the stored ownership record
  of the pair has its read flag set, and the list of the books of the user is the same
  response as before the call and, when it is a list, contains the book.
\<close>

theorem mark_read_stored_not_listed:
  "ownership db (u_id current_user) book_id = Some ub \<longrightarrow>
     (let db' = fst (mark_book_as_read book_id current_user db) in
        snd (mark_book_as_read book_id current_user db) = Inr ''Book marked as read''
        \<and> ownership db' (u_id current_user) book_id = Some (ub\<lparr>ub_is_read := True\<rparr>)
        \<and> snd (get_my_books current_user db') = snd (get_my_books current_user db)
        \<and> (\<forall>bs. snd (get_my_books current_user db') = Inr bs \<longrightarrow> book_id \<in> br_id ` set bs))"
proof
  assume o: "ownership db (u_id current_user) book_id = Some ub"
  then have bound: "in_int64 book_id"
    and f: "find (\<lambda>ub. ub_user_id ub = u_id current_user \<and> ub_book_id ub = book_id)
                  (user_books db) = Some ub"
    by (simp_all add: ownership_def split: if_splits)
  then have ub: "ub \<in> set (user_books db)" "ub_user_id ub = u_id current_user"
      "ub_book_id ub = book_id"
    by (auto simp: find_Some_iff)
  have "owns db (u_id current_user) book_id"
    using ub unfolding owns_def by blast
  then have listed: "book_id \<in> br_id ` set bs"
    if "snd (get_my_books current_user db) = Inr bs" for bs
    using that by (rule get_my_books_lists_owned)
  show "let db' = fst (mark_book_as_read book_id current_user db) in
        snd (mark_book_as_read book_id current_user db) = Inr ''Book marked as read''
        \<and> ownership db' (u_id current_user) book_id = Some (ub\<lparr>ub_is_read := True\<rparr>)
        \<and> snd (get_my_books current_user db') = snd (get_my_books current_user db)
        \<and> (\<forall>bs. snd (get_my_books current_user db') = Inr bs \<longrightarrow> book_id \<in> br_id ` set bs)"
    using f mark_read_twice(1) [OF f] listed
    by (simp add: Let_def mark_read_keeps_listing)
      (simp add: mark_read_bound [OF bound] ownership_def bound)
qed

theorem mark_read_stored_not_listed_witness:
  "ownership (fst (mark_book_as_read 1 alice alice_library)) 1 1
     = Some \<lparr>ub_id = 1, ub_user_id = 1, ub_book_id = 1, ub_is_read = True, ub_added_at = 7\<rparr>
   \<and> snd (get_my_books alice (fst (mark_book_as_read 1 alice alice_library)))
     = snd (get_my_books alice alice_library)"
  using mark_read_stored_not_listed [where db = alice_library and current_user = alice
      and book_id = 1
      and ub = "\<lparr>ub_id = 1, ub_user_id = 1, ub_book_id = 1, ub_is_read = False, ub_added_at = 7\<rparr>"]
  by (simp add: alice_library_def eval_defs ownership_def Let_def)

text \<open>
  Claim C8. In the database reached from the empty tables by any sequence of requests,
  the list of the books of a registered user is answered with success, and it holds the
  catalog entries of exactly the books of the ownership rows of the user, which are the
  books the user acquired during the sequence, in the order of the acquisitions.
\<close>

theorem list_owned_in_acquisition_order:
  "get_current_user email (run hashpw checkpw rs create_all) = Inr u \<longrightarrow>
     (let db = run hashpw checkpw rs create_all in
        \<exists>bs. handle hashpw checkpw (GetMyBooks email) db = (db, Inr (BooksBody bs))
             \<and> map br_id bs = acquisitions hashpw checkpw email rs create_all
             \<and> map br_id bs
                 = map ub_book_id (filter (\<lambda>ub. ub_user_id ub = u_id u) (user_books db))
             \<and> map Some bs
                 = map (\<lambda>i. map_option BookResponse (find (\<lambda>b. b_id b = i) (books db)))
                     (acquisitions hashpw checkpw email rs create_all))"
proof
  let ?db = "run hashpw checkpw rs create_all"
  let ?rows = "filter (\<lambda>ub. ub_user_id ub = u_id u) (user_books ?db)"
  let ?bs = "map (\<lambda>ub. BookResponse (the (find (\<lambda>b. b_id b = ub_book_id ub) (books ?db)))) ?rows"
  assume u: "get_current_user email ?db = Inr u"
  have inv: "db_inv ?db"
    by (rule run_inv [OF create_all_inv])
  have "owned_ids email create_all = []"
    by (simp add: owned_ids_def get_current_user_def create_all_def)
  with run_owned_ids [OF create_all_inv, of email hashpw checkpw rs]
  have "owned_ids email ?db = acquisitions hashpw checkpw email rs create_all"
    by simp
  with u have acq: "map ub_book_id ?rows = acquisitions hashpw checkpw email rs create_all"
    by (simp add: owned_ids_def)
  have h: "handle hashpw checkpw (GetMyBooks email) ?db = (?db, Inr (BooksBody ?bs))"
    using u by (simp add: with_current_user_Inr get_my_books_inv [OF inv] respond_def)
  have row: "br_id (BookResponse (the (find (\<lambda>b. b_id b = ub_book_id ub) (books ?db)))) = ub_book_id ub
        \<and> Some (BookResponse (the (find (\<lambda>b. b_id b = ub_book_id ub) (books ?db))))
            = map_option BookResponse (find (\<lambda>b. b_id b = ub_book_id ub) (books ?db))"
    if "ub \<in> set (user_books ?db)" for ub
    using found_book_id [OF inv that] by (auto simp: BookResponse_def)
  have ids: "map br_id ?bs = map ub_book_id ?rows"
    using row by (simp add: comp_def)
  have "map Some ?bs
          = map (\<lambda>ub. map_option BookResponse (find (\<lambda>b. b_id b = ub_book_id ub) (books ?db))) ?rows"
    using row by (simp add: comp_def)
  also have "\<dots> = map (\<lambda>i. map_option BookResponse (find (\<lambda>b. b_id b = i) (books ?db)))
                     (map ub_book_id ?rows)"
    by (simp add: comp_def)
  finally have bodies: "map Some ?bs
          = map (\<lambda>i. map_option BookResponse (find (\<lambda>b. b_id b = i) (books ?db)))
              (acquisitions hashpw checkpw email rs create_all)"
    by (simp only: acq)
  show "let db = ?db in
        \<exists>bs. handle hashpw checkpw (GetMyBooks email) db = (db, Inr (BooksBody bs))
             \<and> map br_id bs = acquisitions hashpw checkpw email rs create_all
             \<and> map br_id bs
                 = map ub_book_id (filter (\<lambda>ub. ub_user_id ub = u_id u) (user_books db))
             \<and> map Some bs
                 = map (\<lambda>i. map_option BookResponse (find (\<lambda>b. b_id b = i) (books db)))
                     (acquisitions hashpw checkpw email rs create_all)"
    unfolding Let_def using h ids acq bodies by (intro exI [of _ ?bs]) simp
qed

theorem list_owned_in_acquisition_order_witness:
  "acquisitions toy_hashpw toy_checkpw ''a@x.com'' demo_requests create_all = [4, 2, 1]
   \<and> handle toy_hashpw toy_checkpw (GetMyBooks ''a@x.com'') demo_db
       = (demo_db, Inr (BooksBody
           (map BookResponse [books seeded ! 3, books seeded ! 1, books seeded ! 0])))"
proof -
  have u: "get_current_user ''a@x.com'' (run toy_hashpw toy_checkpw demo_requests create_all)
             = Inr \<lparr>u_id = 1, u_email = ''a@x.com'', u_hashed_password = ''s11wp'',
                    u_is_active = True, u_subscription_plan = ''premium'', u_created_at = 10\<rparr>"
    using demo_users by (simp add: demo_db_def [symmetric] get_current_user_def)
  from list_owned_in_acquisition_order [THEN mp, OF u]
  obtain bs where h: "handle toy_hashpw toy_checkpw (GetMyBooks ''a@x.com'') demo_db
                        = (demo_db, Inr (BooksBody bs))"
    and b: "map Some bs
              = map (\<lambda>i. map_option BookResponse (find (\<lambda>b. b_id b = i) (books demo_db)))
                  (acquisitions toy_hashpw toy_checkpw ''a@x.com'' demo_requests create_all)"
    unfolding Let_def demo_db_def [symmetric] by blast
  have "map Some bs = map Some (map BookResponse [books seeded ! 3, books seeded ! 1, books seeded ! 0])"
    unfolding b demo_acq demo_tables by (simp add: eval_defs)
  then have "bs = map BookResponse [books seeded ! 3, books seeded ! 1, books seeded ! 0]"
    by (simp only: inj_map_eq_map [OF inj_Some])
  with h demo_acq show ?thesis by simp
qed

text \<open>
  Requests served one after the other keep the pairs unique. In every database reached
  from the empty tables by a sequence of such requests, at most one ownership row relates
  a given user to a given book. When a user adds a book with success, adding it again
  afterwards is refused with the already-owned error and changes nothing, and exactly
  one row relates the user to the book.
\<close>

lemma served_in_turn_ownership_unique:
  "length (filter (\<lambda>ub. ub_user_id ub = uid \<and> ub_book_id ub = bid)
             (user_books (run hashpw checkpw rs create_all))) \<le> 1
   \<and> (get_current_user email db = Inr u
        \<and> \<not> isl (snd (handle hashpw checkpw (AddBookToLibrary email book_id utcnow) db)) \<longrightarrow>
       (let db1 = fst (handle hashpw checkpw (AddBookToLibrary email book_id utcnow) db) in
          handle hashpw checkpw (AddBookToLibrary email book_id later) db1 = (db1, Inl AlreadyOwned)
          \<and> length (filter (\<lambda>ub. ub_user_id ub = u_id u \<and> ub_book_id ub = book_id)
                      (user_books db1)) = 1))"
proof (intro conjI impI)
  have "distinct (ownership_pairs (run hashpw checkpw rs create_all))"
    by (rule run_pairs) (simp add: ownership_pairs_def create_all_def)
  then have "length (filter (\<lambda>ub. (ub_user_id ub, ub_book_id ub) = (uid, bid))
                      (user_books (run hashpw checkpw rs create_all))) \<le> 1"
    unfolding ownership_pairs_def by (rule distinct_count)
  then show "length (filter (\<lambda>ub. ub_user_id ub = uid \<and> ub_book_id ub = bid)
             (user_books (run hashpw checkpw rs create_all))) \<le> 1"
    by simp
next
  assume a: "get_current_user email db = Inr u
        \<and> \<not> isl (snd (handle hashpw checkpw (AddBookToLibrary email book_id utcnow) db))"
  then have u: "get_current_user email db = Inr u" by simp
  with a have ok: "\<not> isl (snd (add_book_to_library utcnow book_id u db))"
    by (simp add: with_current_user_Inr)
  let ?row = "\<lparr>ub_id = next_rowid (map ub_id (user_books db)), ub_user_id = u_id u,
               ub_book_id = book_id, ub_is_read = False, ub_added_at = utcnow\<rparr>"
  from ok add_book_cases [of utcnow book_id u db]
  have db1: "fst (add_book_to_library utcnow book_id u db) = db\<lparr>user_books := user_books db @ [?row]\<rparr>"
    and n: "\<not> owns db (u_id u) book_id"
    by simp_all
  have u1: "get_current_user email (db\<lparr>user_books := user_books db @ [?row]\<rparr>) = Inr u"
    using u by (simp add: get_current_user_def)
  have "owns (db\<lparr>user_books := user_books db @ [?row]\<rparr>) (u_id u) book_id"
    by (simp add: owns_def)
  then obtain ub where "find (\<lambda>ub. ub_user_id ub = u_id u \<and> ub_book_id ub = book_id)
        (user_books (db\<lparr>user_books := user_books db @ [?row]\<rparr>)) = Some ub"
    using find_owned_Some by blast
  moreover
  from n have "find (\<lambda>ub. ub_user_id ub = u_id u \<and> ub_book_id ub = book_id) (user_books db) = None"
    by (simp add: find_owned_None)
  then have "\<exists>b. find (\<lambda>b. b_id b = book_id) (books db) = Some b"
    using ok by (auto simp: add_book_to_library_def split: option.splits)
  ultimately have second: "add_book_to_library later book_id u (db\<lparr>user_books := user_books db @ [?row]\<rparr>)
      = (db\<lparr>user_books := user_books db @ [?row]\<rparr>, Inl AlreadyOwned)"
    by (auto simp: add_book_to_library_def AlreadyOwned_def)
  from n have "filter (\<lambda>ub. ub_user_id ub = u_id u \<and> ub_book_id ub = book_id) (user_books db) = []"
    by (auto simp: owns_def filter_empty_conv)
  then have one: "length (filter (\<lambda>ub. ub_user_id ub = u_id u \<and> ub_book_id ub = book_id)
                      (user_books (db\<lparr>user_books := user_books db @ [?row]\<rparr>))) = 1"
    by simp
  show "let db1 = fst (handle hashpw checkpw (AddBookToLibrary email book_id utcnow) db) in
          handle hashpw checkpw (AddBookToLibrary email book_id later) db1 = (db1, Inl AlreadyOwned)
          \<and> length (filter (\<lambda>ub. ub_user_id ub = u_id u \<and> ub_book_id ub = book_id)
                      (user_books db1)) = 1"
    using u u1 second one
    by (simp add: Let_def with_current_user_Inr db1 respond_def)
qed

lemma served_in_turn_ownership_unique_example:
  "length (filter (\<lambda>ub. ub_user_id ub = 1 \<and> ub_book_id ub = 4) (user_books demo_db)) \<le> 1
   \<and> get_current_user ''a@x.com'' demo_db = Inr alice_premium
   \<and> snd (handle toy_hashpw toy_checkpw (AddBookToLibrary ''a@x.com'' 5 30) demo_db)
       = Inr (Message ''Book added to library'')
   \<and> snd (handle toy_hashpw toy_checkpw (AddBookToLibrary ''a@x.com'' 5 31)
            (fst (handle toy_hashpw toy_checkpw (AddBookToLibrary ''a@x.com'' 5 30) demo_db)))
       = Inl AlreadyOwned
   \<and> length (filter (\<lambda>ub. ub_user_id ub = 1 \<and> ub_book_id ub = 5)
        (user_books (fst (handle toy_hashpw toy_checkpw (AddBookToLibrary ''a@x.com'' 5 30)
                            demo_db)))) = 1"
proof -
  have first: "snd (handle toy_hashpw toy_checkpw (AddBookToLibrary ''a@x.com'' 5 30) demo_db)
       = Inr (Message ''Book added to library'')"
    by (simp add: with_current_user_Inr [OF demo_current_user] snd_respond
          add_book_to_library_def demo_tables eval_defs alice_premium_def)
  then have hyp: "get_current_user ''a@x.com'' demo_db = Inr alice_premium
        \<and> \<not> isl (snd (handle toy_hashpw toy_checkpw (AddBookToLibrary ''a@x.com'' 5 30) demo_db))"
    using demo_current_user by simp
  note uniq = served_in_turn_ownership_unique [where hashpw = toy_hashpw and checkpw = toy_checkpw
      and rs = demo_requests and uid = 1 and bid = 4 and later = 31, unfolded Let_def]
  note twice = uniq [THEN conjunct2, THEN mp, OF hyp]
  show ?thesis
    using uniq [THEN conjunct1] demo_current_user first twice
    by (simp add: demo_db_def [symmetric] alice_premium_def)
qed

text \<open>
  Claim C3, at an input where the code breaks it: at most one ownership row relates a user
  to a book in every reachable state. In the database that the sample session reaches,
  two requests of the first user for the third book, which the user does not own, are
  in flight, and each runs its checks before the other inserts: both find no row of the
  pair, both insert, both are answered with success, and the table holds the pair twice.
  Nothing in the schema refuses the second row, since the table declares no uniqueness
  of the pair. Served in turn, the second of the two requests is refused.
\<close>

theorem concurrent_adds_store_pair_twice:
  "demo_db = run toy_hashpw toy_checkpw demo_requests create_all
   \<and> get_current_user ''a@x.com'' demo_db = Inr alice_premium
   \<and> \<not> owns demo_db (u_id alice_premium) 3
   \<and> schedule [First, Second, First, Second]
         (Received 30 3 alice_premium, Received 31 3 alice_premium, demo_db) =
       (Answered (Inr ''Book added to library''), Answered (Inr ''Book added to library''),
        demo_db\<lparr>user_books := user_books demo_db @
          [\<lparr>ub_id = 5, ub_user_id = 1, ub_book_id = 3, ub_is_read = False, ub_added_at = 30\<rparr>,
           \<lparr>ub_id = 6, ub_user_id = 1, ub_book_id = 3, ub_is_read = False, ub_added_at = 31\<rparr>]\<rparr>)
   \<and> length (filter (\<lambda>ub. ub_user_id ub = u_id alice_premium \<and> ub_book_id ub = 3)
        (user_books (snd (snd (schedule [First, Second, First, Second]
           (Received 30 3 alice_premium, Received 31 3 alice_premium, demo_db)))))) = 2
   \<and> fst (snd (schedule [First, First, Second, Second]
         (Received 30 3 alice_premium, Received 31 3 alice_premium, demo_db)))
       = Answered (Inl AlreadyOwned)"
proof (intro conjI)
  show "demo_db = run toy_hashpw toy_checkpw demo_requests create_all"
    by (rule demo_db_def)
qed (simp_all add: demo_current_user add_book_to_library_checks_def
       add_book_to_library_commit_def demo_tables eval_defs alice_premium_def owns_def
       AlreadyOwned_def)

text \<open>
  Claim C1. When a user who holds an ownership record for a book switches plan, also to
  the free one, the switch succeeds and stores the new plan, the ownership table is
  unchanged, the list of the books of the user is the same response as before and, when
  it is a list, contains the book (it is a list in every database reached from the empty
  tables), and marking the book as read still succeeds. Marking as read binds the id of
  the book in its query, so the last part is about an id that the store binds, as the id
  of every book owned in a database reached from the empty tables is.
\<close>

theorem downgrade_keeps_ownership:
  "get_current_user email db = Inr u \<and> owns db (u_id u) book_id
     \<and> find (\<lambda>p. p_id p = plan_id) (subscription_plans db) = Some plan \<longrightarrow>
   (let db' = fst (handle hashpw checkpw (SubscribeToPlan email plan_id) db) in
      snd (handle hashpw checkpw (SubscribeToPlan email plan_id) db)
        = Inr (Message (''Successfully subscribed to '' @ p_name plan @ '' plan''))
      \<and> get_current_user email db' = Inr (u\<lparr>u_subscription_plan := p_name plan\<rparr>)
      \<and> user_books db' = user_books db
      \<and> snd (handle hashpw checkpw (GetMyBooks email) db')
          = snd (handle hashpw checkpw (GetMyBooks email) db)
      \<and> (\<forall>bs. snd (handle hashpw checkpw (GetMyBooks email) db') = Inr (BooksBody bs)
            \<longrightarrow> book_id \<in> br_id ` set bs)
      \<and> (db = run hashpw checkpw rs create_all
            \<longrightarrow> (\<exists>bs. snd (handle hashpw checkpw (GetMyBooks email) db') = Inr (BooksBody bs)))
      \<and> (in_int64 book_id \<or> db = run hashpw checkpw rs create_all \<longrightarrow>
           snd (handle hashpw checkpw (MarkBookAsRead email book_id) db')
             = Inr (Message ''Book marked as read'')))"
proof
  assume a: "get_current_user email db = Inr u \<and> owns db (u_id u) book_id
     \<and> find (\<lambda>p. p_id p = plan_id) (subscription_plans db) = Some plan"
  then have u: "get_current_user email db = Inr u"
    and o: "owns db (u_id u) book_id"
    and p: "find (\<lambda>p. p_id p = plan_id) (subscription_plans db) = Some plan"
    by simp_all
  let ?db' = "fst (subscribe_to_plan plan_id u db)"
  let ?u' = "u\<lparr>u_subscription_plan := p_name plan\<rparr>"
  have h: "handle hashpw checkpw (SubscribeToPlan email plan_id) db
             = respond Message (subscribe_to_plan plan_id u db)"
    using u by (simp add: with_current_user_Inr)
  have msg: "snd (subscribe_to_plan plan_id u db)
               = Inr (''Successfully subscribed to '' @ p_name plan @ '' plan'')"
    using p by (simp add: subscribe_to_plan_def)
  have u': "get_current_user email ?db' = Inr ?u'"
    unfolding subscribe_current_user using u p by simp
  have ub: "user_books ?db' = user_books db" and bk: "books ?db' = books db"
    by (simp_all add: subscribe_tables)
  have list: "snd (get_my_books ?u' ?db') = snd (get_my_books u db)"
    by (rule get_my_books_snd_cong) (simp_all add: ub bk)
  have o': "owns ?db' (u_id ?u') book_id"
    using o by (simp add: owns_def ub)
  have listed: "book_id \<in> br_id ` set bs"
    if "snd (handle hashpw checkpw (GetMyBooks email) ?db') = Inr (BooksBody bs)" for bs
  proof -
    from that u' have "map_sum id BooksBody (snd (get_my_books ?u' ?db')) = Inr (BooksBody bs)"
      by (simp add: with_current_user_Inr snd_respond)
    then have "snd (get_my_books ?u' ?db') = Inr bs"
      by (cases "snd (get_my_books ?u' ?db')") simp_all
    with o' show ?thesis by (rule get_my_books_lists_owned)
  qed
  have reach: "\<exists>bs. snd (handle hashpw checkpw (GetMyBooks email) ?db') = Inr (BooksBody bs)"
    if "db = run hashpw checkpw rs create_all"
  proof -
    from that have "db_inv db" by (simp add: run_inv create_all_inv)
    then have "db_inv ?db'" by (rule subscribe_inv)
    then show ?thesis
      using u' by (simp add: with_current_user_Inr snd_respond get_my_books_inv)
  qed
  obtain row where "find (\<lambda>ub. ub_user_id ub = u_id u \<and> ub_book_id ub = book_id) (user_books db)
                      = Some row"
    using find_owned_Some [OF o] by blast
  moreover have "in_int64 book_id"
    if "in_int64 book_id \<or> db = run hashpw checkpw rs create_all"
    using that o reachable_owned_id by blast
  ultimately have mark: "snd (mark_book_as_read book_id ?u' ?db') = Inr ''Book marked as read''"
    if "in_int64 book_id \<or> db = run hashpw checkpw rs create_all"
    using that by (simp add: mark_read_bound ub)
  show "let db' = fst (handle hashpw checkpw (SubscribeToPlan email plan_id) db) in
      snd (handle hashpw checkpw (SubscribeToPlan email plan_id) db)
        = Inr (Message (''Successfully subscribed to '' @ p_name plan @ '' plan''))
      \<and> get_current_user email db' = Inr (u\<lparr>u_subscription_plan := p_name plan\<rparr>)
      \<and> user_books db' = user_books db
      \<and> snd (handle hashpw checkpw (GetMyBooks email) db')
          = snd (handle hashpw checkpw (GetMyBooks email) db)
      \<and> (\<forall>bs. snd (handle hashpw checkpw (GetMyBooks email) db') = Inr (BooksBody bs)
            \<longrightarrow> book_id \<in> br_id ` set bs)
      \<and> (db = run hashpw checkpw rs create_all
            \<longrightarrow> (\<exists>bs. snd (handle hashpw checkpw (GetMyBooks email) db') = Inr (BooksBody bs)))
      \<and> (in_int64 book_id \<or> db = run hashpw checkpw rs create_all \<longrightarrow>
           snd (handle hashpw checkpw (MarkBookAsRead email book_id) db')
             = Inr (Message ''Book marked as read''))"
    unfolding Let_def h fst_respond
  proof (intro conjI)
    show "snd (respond Message (subscribe_to_plan plan_id u db))
            = Inr (Message (''Successfully subscribed to '' @ p_name plan @ '' plan''))"
      by (simp add: snd_respond msg)
    show "get_current_user email ?db' = Inr ?u'" by (rule u')
    show "user_books ?db' = user_books db" by (rule ub)
    show "snd (handle hashpw checkpw (GetMyBooks email) ?db')
            = snd (handle hashpw checkpw (GetMyBooks email) db)"
      using u u' list by (simp add: with_current_user_Inr snd_respond)
    show "\<forall>bs. snd (handle hashpw checkpw (GetMyBooks email) ?db') = Inr (BooksBody bs)
            \<longrightarrow> book_id \<in> br_id ` set bs"
      using listed by blast
    show "db = run hashpw checkpw rs create_all
            \<longrightarrow> (\<exists>bs. snd (handle hashpw checkpw (GetMyBooks email) ?db') = Inr (BooksBody bs))"
      using reach by blast
    show "in_int64 book_id \<or> db = run hashpw checkpw rs create_all \<longrightarrow>
            snd (handle hashpw checkpw (MarkBookAsRead email book_id) ?db')
              = Inr (Message ''Book marked as read'')"
      using u' mark by (simp add: with_current_user_Inr snd_respond)
  qed
qed

theorem downgrade_keeps_ownership_witness:
  "get_current_user ''a@x.com'' demo_db = Inr alice_premium
   \<and> owns demo_db 1 2
   \<and> map_option b_is_premium (find (\<lambda>b. b_id b = 2) (books demo_db)) = Some True
   \<and> map_option p_name (find (\<lambda>p. p_id p = 1) (subscription_plans demo_db)) = Some ''free''
   \<and> get_current_user ''a@x.com''
        (fst (handle toy_hashpw toy_checkpw (SubscribeToPlan ''a@x.com'' 1) demo_db))
       = Inr (alice_premium\<lparr>u_subscription_plan := ''free''\<rparr>)
   \<and> user_books (fst (handle toy_hashpw toy_checkpw (SubscribeToPlan ''a@x.com'' 1) demo_db))
       = user_books demo_db
   \<and> snd (handle toy_hashpw toy_checkpw (GetMyBooks ''a@x.com'')
             (fst (handle toy_hashpw toy_checkpw (SubscribeToPlan ''a@x.com'' 1) demo_db)))
       = snd (handle toy_hashpw toy_checkpw (GetMyBooks ''a@x.com'') demo_db)
   \<and> snd (handle toy_hashpw toy_checkpw (MarkBookAsRead ''a@x.com'' 2)
             (fst (handle toy_hashpw toy_checkpw (SubscribeToPlan ''a@x.com'' 1) demo_db)))
       = Inr (Message ''Book marked as read'')"
proof -
  let ?free = "\<lparr>p_id = 1, p_name = ''free'', p_price = 0, p_description = ''Access to basic books'',
                p_max_books = 5\<rparr>"
  have o: "owns demo_db 1 2"
    by (simp add: owns_def demo_tables)
  have b: "map_option b_is_premium (find (\<lambda>b. b_id b = 2) (books demo_db)) = Some True"
    by (simp add: demo_tables eval_defs)
  have p: "find (\<lambda>p. p_id p = 1) (subscription_plans demo_db) = Some ?free"
    by (simp add: demo_tables eval_defs)
  have hyp: "get_current_user ''a@x.com'' demo_db = Inr alice_premium
     \<and> owns demo_db (u_id alice_premium) 2
     \<and> find (\<lambda>p. p_id p = 1) (subscription_plans demo_db) = Some ?free"
    using demo_current_user o p by (simp add: alice_premium_def)
  note concl = downgrade_keeps_ownership [where hashpw = toy_hashpw and checkpw = toy_checkpw
      and rs = demo_requests, THEN mp, OF hyp, unfolded Let_def]
  show ?thesis
    using demo_current_user o b p concl by (simp add: in_int64_def)
qed

end
